theory Spec2Isabelle
  imports Complex_Main "HOL-Library.Sublist" "HOL-Library.AList"
begin

chapter \<open>The model\<close>

section \<open>JavaScript strings\<close>

text \<open>
  A JavaScript string is modelled as a \<^typ>\<open>string\<close>, one \<^typ>\<open>char\<close> per UTF-16 code
  unit, the value of the \<^typ>\<open>char\<close> being the code unit. The model therefore covers the
  strings whose code units lie in the range U+0000 .. U+00FF (Basic Latin and Latin-1
  Supplement); every character class below is the restriction of the ECMAScript class to
  that range.
\<close>

definition is_space :: "char \<Rightarrow> bool" where
  \<comment> \<open>the regular expression class \<open>\s\<close>, which is also what \<open>String.prototype.trim\<close> strips\<close>
  "is_space c \<longleftrightarrow>
     c \<in> {CHR 0x09, CHR 0x0A, CHR 0x0B, CHR 0x0C, CHR 0x0D, CHR 0x20, CHR 0xA0}"

definition trim :: "string \<Rightarrow> string" where
  "trim s = rev (dropWhile is_space (rev (dropWhile is_space s)))"

definition blank :: "string \<Rightarrow> bool" where
  \<comment> \<open>\<open>!line.trim()\<close>\<close>
  "blank s \<longleftrightarrow> trim s = []"

fun split_on :: "char \<Rightarrow> string \<Rightarrow> string list" where
  \<comment> \<open>\<open>s.split(d)\<close> for a one-character separator; \<open>''.split(d)\<close> is \<open>['']\<close>\<close>
  "split_on d [] = [[]]"
| "split_on d (c # cs) =
     (if c = d then [] # split_on d cs
      else (case split_on d cs of [] \<Rightarrow> [[c]] | w # ws \<Rightarrow> (c # w) # ws))"

fun join_with :: "string \<Rightarrow> string list \<Rightarrow> string" where
  \<comment> \<open>\<open>xs.join(sep)\<close>\<close>
  "join_with sep [] = []"
| "join_with sep [x] = x"
| "join_with sep (x # y # ys) = x @ sep @ join_with sep (y # ys)"

fun str_includes :: "string \<Rightarrow> string \<Rightarrow> bool" where
  \<comment> \<open>\<open>hay.includes(needle)\<close>\<close>
  "str_includes [] needle = (needle = [])"
| "str_includes (h # hs) needle = (prefix needle (h # hs) \<or> str_includes hs needle)"

definition lower_char :: "char \<Rightarrow> char" where
  \<comment> \<open>\<open>toLowerCase\<close> on one code unit: A-Z, and U+00C0 .. U+00DE except the
      multiplication sign U+00D7\<close>
  "lower_char c =
     (let n = (of_char c :: nat)
      in if (65 \<le> n \<and> n \<le> 90) \<or> (192 \<le> n \<and> n \<le> 222 \<and> n \<noteq> 215)
         then char_of (n + 32) else c)"

definition toLowerCase :: "string \<Rightarrow> string" where
  "toLowerCase s = map lower_char s"

function collapse_ws :: "string \<Rightarrow> string" where
  \<comment> \<open>\<open>s.replace(/\s+/g, ' ')\<close>\<close>
  "collapse_ws [] = []"
| "collapse_ws (c # cs) =
     (if is_space c then CHR '' '' # collapse_ws (dropWhile is_space cs)
      else c # collapse_ws cs)"
  by pat_completeness auto
termination
  by (relation "measure length") (auto simp: less_Suc_eq_le length_dropWhile_le)

section \<open>Lyric segmenter\<close>

definition MAX_LYRIC_LINE_LENGTH :: nat where
  "MAX_LYRIC_LINE_LENGTH = 48"

definition is_punct_or_symbol :: "char \<Rightarrow> bool" where
  \<comment> \<open>\<open>PUNCT_REMOVE_REGEX = /[\p{P}\p{S}]/gu\<close>: the code points of general category
      P* or S* below U+0100\<close>
  "is_punct_or_symbol c \<longleftrightarrow>
     (let n = (of_char c :: nat)
      in (33 \<le> n \<and> n \<le> 47) \<or> (58 \<le> n \<and> n \<le> 64) \<or> (91 \<le> n \<and> n \<le> 96)
         \<or> (123 \<le> n \<and> n \<le> 126)
         \<or> (161 \<le> n \<and> n \<le> 169) \<or> n = 171 \<or> n = 172 \<or> (174 \<le> n \<and> n \<le> 177)
         \<or> n = 180 \<or> n = 182 \<or> n = 183 \<or> n = 184 \<or> n = 187 \<or> n = 191
         \<or> n = 215 \<or> n = 247)"

definition sanitizeLyric :: "string \<Rightarrow> string" where
  "sanitizeLyric v = trim (collapse_ws (filter (\<lambda>c. \<not> is_punct_or_symbol c) v))"

definition lastIndexOf :: "string \<Rightarrow> char \<Rightarrow> nat \<Rightarrow> int" where
  \<comment> \<open>\<open>s.lastIndexOf(c, from)\<close>: the greatest index \<open>\<le> from\<close> holding \<open>c\<close>, else -1\<close>
  "lastIndexOf s c from =
     (case List.find (\<lambda>i. s ! i = c) (rev [0 ..< min (Suc from) (length s)]) of
        None \<Rightarrow> - 1 | Some i \<Rightarrow> int i)"

definition indexOf :: "string \<Rightarrow> char \<Rightarrow> nat \<Rightarrow> int" where
  \<comment> \<open>\<open>s.indexOf(c, from)\<close>: the least index \<open>\<ge> from\<close> holding \<open>c\<close>, else -1\<close>
  "indexOf s c from =
     (case List.find (\<lambda>i. s ! i = c) [from ..< length s] of
        None \<Rightarrow> - 1 | Some i \<Rightarrow> int i)"

function splitLoop :: "nat \<Rightarrow> string list \<Rightarrow> string \<Rightarrow> string list \<times> string" where
  \<comment> \<open>the \<open>while (remaining.length > maxLength)\<close> loop of \<open>splitLyricLine\<close>, on
      \<open>(segments, remaining)\<close>\<close>
  "splitLoop maxLength segments remaining =
     (if length remaining > maxLength then
        (let breakIdx0 = lastIndexOf remaining CHR '' '' maxLength;
             breakIdx = (if breakIdx0 \<le> 0 then indexOf remaining CHR '' '' maxLength
                         else breakIdx0)
         in if breakIdx \<le> 0 then (segments, remaining)
            else
              (let head = trim (take (nat breakIdx) remaining)
               in splitLoop maxLength
                    (if head \<noteq> [] then segments @ [head] else segments)
                    (trim (drop (nat breakIdx) remaining))))
      else (segments, remaining))"
  by pat_completeness auto
termination
proof (relation "measure (\<lambda>(m, segs, r). length r)", goal_cases)
  case 1
  show ?case by simp
next
  case (2 maxLength segments remaining breakIdx0 breakIdx head)
  let ?d = "drop (nat breakIdx) remaining"
  have "length (trim ?d) \<le> length (dropWhile is_space ?d)"
    unfolding trim_def using length_dropWhile_le [of is_space "rev (dropWhile is_space ?d)"]
    by simp
  also have "\<dots> \<le> length ?d" by (rule length_dropWhile_le)
  finally have "length (trim ?d) \<le> length ?d" .
  moreover have "length (drop (nat breakIdx) remaining) < length remaining"
    using 2 by auto
  ultimately show ?case by simp
qed

definition splitLyricLine :: "nat \<Rightarrow> string \<Rightarrow> string list" where
  "splitLyricLine maxLength line =
     (case splitLoop maxLength [] (trim line) of
        (segments, remaining) \<Rightarrow>
          (let segments' = (if remaining \<noteq> [] then segments @ [remaining] else segments)
           in if segments' \<noteq> [] then segments' else [trim line]))"

fun crlf_to_lf :: "string \<Rightarrow> string" where
  \<comment> \<open>\<open>s.replace(/\r\n?/g, '\n')\<close>\<close>
  "crlf_to_lf [] = []"
| "crlf_to_lf (c # cs) =
     (if c = CHR 0x0D then
        (case cs of
           [] \<Rightarrow> [CHR 0x0A]
         | d # ds \<Rightarrow> if d = CHR 0x0A then CHR 0x0A # crlf_to_lf ds else CHR 0x0A # crlf_to_lf cs)
      else c # crlf_to_lf cs)"

definition nbsp_to_space :: "string \<Rightarrow> string" where
  \<comment> \<open>\<open>s.replace(/\u00a0/g, ' ')\<close>\<close>
  "nbsp_to_space s = map (\<lambda>c. if c = CHR 0xA0 then CHR '' '' else c) s"

definition strip_ends :: "string \<Rightarrow> string" where
  \<comment> \<open>\<open>line.replace(/\s+$/g, '').replace(/^\s+/g, '')\<close>\<close>
  "strip_ends line = dropWhile is_space (rev (dropWhile is_space (rev line)))"

definition normalizeLyricBlock :: "string \<Rightarrow> string" where
  "normalizeLyricBlock input =
     (let normalized = nbsp_to_space (crlf_to_lf input);
          rawLines = split_on CHR 0x0A normalized;
          trimmed = map strip_ends rawLines;
          \<comment> \<open>\<open>start\<close> skips the leading blank lines, \<open>end\<close> the trailing ones\<close>
          slice = rev (dropWhile blank (rev (dropWhile blank trimmed)))
      in if slice = [] then []
         else join_with [CHR 0x0A]
                (concat (map (\<lambda>line.
                   if blank line then []
                   else (let sanitized = sanitizeLyric line
                         in if sanitized = [] then []
                            else splitLyricLine MAX_LYRIC_LINE_LENGTH sanitized)) slice)))"

record build_state =
  expanded :: "string list"
  slides :: "string list list"
  current :: "string list"

definition flush :: "build_state \<Rightarrow> build_state" where
  "flush st =
     (if current st \<noteq> [] then st\<lparr>slides := slides st @ [current st], current := []\<rparr> else st)"

definition push_part :: "build_state \<Rightarrow> string \<Rightarrow> build_state" where
  \<comment> \<open>the body of \<open>for (const part of parts)\<close>\<close>
  "push_part st part =
     (let segment = trim part
      in if segment = [] then st
         else
           (let st1 = st\<lparr>expanded := expanded st @ [segment]\<rparr>;
                st2 = (if length (current st1) = 2 then flush st1 else st1);
                st3 = st2\<lparr>current := current st2 @ [segment]\<rparr>
            in if length (current st3) = 2 then flush st3 else st3))"

definition push_line :: "build_state \<Rightarrow> string \<Rightarrow> build_state" where
  \<comment> \<open>the body of \<open>for (const raw of lines)\<close>\<close>
  "push_line st raw =
     (let trimmed = trim raw
      in if trimmed = [] then flush st
         else foldl push_part st (splitLyricLine MAX_LYRIC_LINE_LENGTH trimmed))"

definition buildLyricSlides :: "string list \<Rightarrow> string list \<times> string list list" where
  "buildLyricSlides lines =
     (let st = flush (foldl push_line \<lparr>expanded = [], slides = [], current = []\<rparr> lines)
      in (expanded st, slides st))"

record song_section =
  section_id :: string
  section_name :: string
  sequenceLabel :: "string option"
  lyrics :: "string option"
  lyricLines :: "string list option"
  lyricSlides :: "string list list option"

definition enrichSectionLyrics :: "song_section \<Rightarrow> song_section" where
  "enrichSectionLyrics section =
     (case lyrics section of
        None \<Rightarrow> section\<lparr>lyricLines := None, lyricSlides := None\<rparr>
      | Some ly \<Rightarrow>
          if ly = [] then section\<lparr>lyricLines := None, lyricSlides := None\<rparr>
          else
            (case buildLyricSlides (map strip_ends (split_on CHR 0x0A ly)) of
               (ls, sl) \<Rightarrow>
                 section\<lparr>lyricLines := (if ls \<noteq> [] then Some ls else None),
                         lyricSlides := (if sl \<noteq> [] then Some sl else None)\<rparr>))"

definition coerceSection :: "string \<Rightarrow> string \<Rightarrow> string \<Rightarrow> song_section" where
  \<comment> \<open>the branch of \<open>coerceSectionArray\<close> for a section node whose lyrics source is a
      string: \<open>lyrics\<close> is set when the source is not blank, then the section is enriched\<close>
  "coerceSection ident name lyricsSourceRaw =
     enrichSectionLyrics
       \<lparr>section_id = ident, section_name = name, sequenceLabel = None,
        lyrics = (if trim lyricsSourceRaw \<noteq> [] then Some (normalizeLyricBlock lyricsSourceRaw)
                  else None),
        lyricLines = None, lyricSlides = None\<rparr>"

text \<open>
  The loop invariant of \<open>buildLyricSlides\<close>: the finished slides followed by the slide
  under construction are the lines emitted so far, the slide under construction holds at
  most one line between two iterations, every finished slide holds one or two lines, and
  no emitted line is blank.
\<close>

definition slide_inv :: "build_state \<Rightarrow> bool" where
  "slide_inv st \<longleftrightarrow>
     concat (slides st) @ current st = expanded st \<and> length (current st) < 2
     \<and> (\<forall>s\<in>set (slides st). 1 \<le> length s \<and> length s \<le> 2)
     \<and> (\<forall>l\<in>set (expanded st). \<not> blank l)"

text \<open>
  The cleaned, wrapped line stream of one source line: the non-empty trimmed segments that
  \<open>splitLyricLine\<close> makes of it.
\<close>

definition wrapped_segments :: "string \<Rightarrow> string list" where
  "wrapped_segments raw =
     filter (\<lambda>s. s \<noteq> []) (map trim (splitLyricLine MAX_LYRIC_LINE_LENGTH (trim raw)))"

section \<open>Title normalizer\<close>

function strip_delimited :: "char \<Rightarrow> char \<Rightarrow> string \<Rightarrow> string" where
  \<comment> \<open>\<open>s.replace(/\([^)]*\)/g, ' ')\<close> for \<open>opn = (\<close>, \<open>cls = )\<close>, and
      \<open>s.replace(/\[[^\]]*\]/g, ' ')\<close> for the brackets: an opening character that has a
      closing one somewhere after it is replaced, with everything up to the first such
      closing character, by one space\<close>
  "strip_delimited opn cls [] = []"
| "strip_delimited opn cls (c # cs) =
     (if c = opn \<and> cls \<in> set cs
      then CHR '' '' # strip_delimited opn cls (tl (dropWhile (\<lambda>x. x \<noteq> cls) cs))
      else c # strip_delimited opn cls cs)"
  by pat_completeness auto
termination
proof (relation "measure (\<lambda>(opn, cls, s). length s)", goal_cases)
  case 1
  show ?case by simp
next
  case (2 opn cls c cs)
  have "length (tl (dropWhile (\<lambda>x. x \<noteq> cls) cs)) \<le> length (dropWhile (\<lambda>x. x \<noteq> cls) cs)"
    by simp
  also have "\<dots> \<le> length cs" by (rule length_dropWhile_le)
  finally show ?case by simp
next
  case (3 opn cls c cs)
  show ?case by simp
qed

definition is_word_char :: "char \<Rightarrow> bool" where
  \<comment> \<open>the class \<open>\w\<close>, which decides the word boundary \<open>\b\<close>\<close>
  "is_word_char c \<longleftrightarrow>
     (let n = (of_char c :: nat)
      in (48 \<le> n \<and> n \<le> 57) \<or> (65 \<le> n \<and> n \<le> 90) \<or> n = 95 \<or> (97 \<le> n \<and> n \<le> 122))"

definition at_word_end :: "string \<Rightarrow> bool" where
  \<comment> \<open>\<open>\b\<close> after a word character: the rest is empty or starts with a non-word character\<close>
  "at_word_end r \<longleftrightarrow> (case r of [] \<Rightarrow> True | c # _ \<Rightarrow> \<not> is_word_char c)"

definition spaces_then :: "string \<Rightarrow> string \<Rightarrow> string option" where
  \<comment> \<open>\<open>\s+\<close> followed by the literal \<open>w\<close>: the rest after the literal\<close>
  "spaces_then w r =
     (case r of
        [] \<Rightarrow> None
      | c # _ \<Rightarrow>
          if is_space c \<and> prefix w (dropWhile is_space r)
          then Some (drop (length w) (dropWhile is_space r)) else None)"

definition alias_here :: "string \<Rightarrow> bool" where
  \<comment> \<open>\<open>closing\s+worship(\s+song)?\b\<close> matched at the head of the string\<close>
  "alias_here s \<longleftrightarrow>
     prefix ''closing'' s \<and>
     (case spaces_then ''worship'' (drop 7 s) of
        None \<Rightarrow> False
      | Some r \<Rightarrow>
          (case spaces_then ''song'' r of Some r' \<Rightarrow> at_word_end r' | None \<Rightarrow> False)
          \<or> at_word_end r)"

fun alias_search :: "bool \<Rightarrow> string \<Rightarrow> bool" where
  \<comment> \<open>\<open>/\bclosing\s+worship(\s+song)?\b/.test(s)\<close>; the flag says whether the character
      before the current position is a word character\<close>
  "alias_search prev_word [] = False"
| "alias_search prev_word (c # cs) =
     ((\<not> prev_word \<and> alias_here (c # cs)) \<or> alias_search (is_word_char c) cs)"

definition mapAlias :: "string \<Rightarrow> string" where
  "mapAlias s =
     (let low = toLowerCase s
      in if alias_search False low then ''closing worship'' else s)"

definition combining :: "nat \<Rightarrow> nat" where
  \<comment> \<open>the combining marks of the Latin-1 decompositions, by the second hexadecimal digit
      of the letter\<close>
  "combining k =
     (if k = 0 then 768 else if k = 1 then 769 else if k = 2 then 770
      else if k = 3 then 771 else if k = 4 then 776 else 778)"

definition nfkd_char :: "char \<Rightarrow> nat list" where
  \<comment> \<open>\<open>String.prototype.normalize('NFKD')\<close> on one code unit below U+0100, as the list of
      the code points of its compatibility decomposition\<close>
  "nfkd_char c =
     (let n = (of_char c :: nat)
      in if n = 160 then [32]
         else if n = 168 then [32, 776]
         else if n = 170 then [97]
         else if n = 175 then [32, 772]
         else if n = 178 then [50]
         else if n = 179 then [51]
         else if n = 180 then [32, 769]
         else if n = 181 then [956]
         else if n = 184 then [32, 807]
         else if n = 185 then [49]
         else if n = 186 then [111]
         else if n = 188 then [49, 8260, 52]
         else if n = 189 then [49, 8260, 50]
         else if n = 190 then [51, 8260, 52]
         else if 192 \<le> n \<and> n \<le> 197 then [65, combining (n - 192)]
         else if n = 199 then [67, 807]
         else if 200 \<le> n \<and> n \<le> 203 then [69, combining (if n = 203 then 4 else n - 200)]
         else if 204 \<le> n \<and> n \<le> 207 then [73, combining (if n = 207 then 4 else n - 204)]
         else if n = 209 then [78, 771]
         else if 210 \<le> n \<and> n \<le> 214 then [79, combining (n - 210)]
         else if 217 \<le> n \<and> n \<le> 220 then [85, combining (if n = 220 then 4 else n - 217)]
         else if n = 221 then [89, 769]
         else if 224 \<le> n \<and> n \<le> 229 then [97, combining (n - 224)]
         else if n = 231 then [99, 807]
         else if 232 \<le> n \<and> n \<le> 235 then [101, combining (if n = 235 then 4 else n - 232)]
         else if 236 \<le> n \<and> n \<le> 239 then [105, combining (if n = 239 then 4 else n - 236)]
         else if n = 241 then [110, 771]
         else if 242 \<le> n \<and> n \<le> 246 then [111, combining (n - 242)]
         else if 249 \<le> n \<and> n \<le> 252 then [117, combining (if n = 252 then 4 else n - 249)]
         else if n = 253 then [121, 769]
         else if n = 255 then [121, 776]
         else [n])"

definition nfkd :: "string \<Rightarrow> nat list" where
  "nfkd s = concat (map nfkd_char s)"

definition is_alnum_code :: "nat \<Rightarrow> bool" where
  \<comment> \<open>the class \<open>[a-z0-9]\<close>\<close>
  "is_alnum_code n \<longleftrightarrow> (48 \<le> n \<and> n \<le> 57) \<or> (97 \<le> n \<and> n \<le> 122)"

function replace_non_alnum :: "nat list \<Rightarrow> string" where
  \<comment> \<open>\<open>s.replace(/[^a-z0-9]+/g, ' ')\<close> on code points; the result holds only
      \<open>a-z\<close>, \<open>0-9\<close> and spaces\<close>
  "replace_non_alnum [] = []"
| "replace_non_alnum (n # ns) =
     (if is_alnum_code n then char_of n # replace_non_alnum ns
      else CHR '' '' # replace_non_alnum (dropWhile (\<lambda>k. \<not> is_alnum_code k) ns))"
  by pat_completeness auto
termination
  by (relation "measure length") (auto simp: less_Suc_eq_le length_dropWhile_le)

definition normalizeTitle :: "string \<Rightarrow> string" where
  "normalizeTitle s =
     (let t = strip_delimited CHR ''['' CHR '']'' (strip_delimited CHR ''('' CHR '')'' s);
          t = mapAlias t
      in trim (replace_non_alnum (nfkd (toLowerCase t))))"

text \<open>
  The shape of a normalized title: only \<open>a-z\<close>, \<open>0-9\<close> and single spaces, none of them
  leading or trailing.
\<close>

definition is_canon_char :: "char \<Rightarrow> bool" where
  "is_canon_char c \<longleftrightarrow> is_alnum_code (of_char c) \<or> c = CHR '' ''"

fun no_double_space :: "string \<Rightarrow> bool" where
  "no_double_space (a # b # r) = (\<not> (a = CHR '' '' \<and> b = CHR '' '') \<and> no_double_space (b # r))"
| "no_double_space r = True"

definition canonical_title :: "string \<Rightarrow> bool" where
  "canonical_title r \<longleftrightarrow> (\<forall>c\<in>set r. is_canon_char c) \<and> no_double_space r \<and> trim r = r"

section \<open>Playlist synchronization\<close>

datatype item_type = header | presentation

record source_item =
  item_type :: item_type
  item_title :: string

record sync_payload =
  host :: string
  port :: nat
  playlist_name :: string
  titles :: "string list option"
  items :: "source_item list option"

text \<open>
  What the presentation host answers during one call of \<open>syncPlaylist\<close>. The two
  traversals of the library responses visit objects carrying a name and an id;
  \<open>library_names\<close> lists those (name, id) pairs in visiting order, and \<open>playlists\<close> lists the
  (name, id) pairs met in the \<open>/v1/playlists\<close> response. A port of 0 is the missing port.
\<close>

record playlist_entry =
  entry_type :: string
  entry_uuid :: "string option"
  entry_name :: "string option"

record host_world =
  library_names :: "(string \<times> string) list"
  playlists :: "(string \<times> string) list"
  create_status :: nat
  create_id :: "string option"
  current_items :: "playlist_entry list"
  put_status :: nat

datatype desired_item =
  DesiredPresentation string
| DesiredHeader string nat

datatype sync_error = MissingHostPort | NoPlaylist | PutStatus nat

datatype request =
  CreatePlaylist string
| ReplacePlaylist string "desired_item list"

record sync_result =
  ok :: bool
  changed :: bool
  created :: "bool option"
  playlistId :: "string option"
  totalDesired :: nat
  totalResolved :: nat
  error :: "sync_error option"

definition refsByNorm :: "(string \<times> string) list \<Rightarrow> string \<Rightarrow> (string \<times> string) list" where
  \<comment> \<open>\<open>refsByNorm.get(norm) || []\<close>: the references filed under a normalized name, in
      insertion order\<close>
  "refsByNorm lib key = filter (\<lambda>(nm, ident). normalizeTitle nm = key) lib"

definition desiredSource :: "sync_payload \<Rightarrow> source_item list" where
  "desiredSource payload =
     (let titles = (case titles payload of None \<Rightarrow> [] | Some ts \<Rightarrow> ts);
          itemsIn = (case items payload of None \<Rightarrow> [] | Some its \<Rightarrow> its)
      in if length itemsIn > 0 then itemsIn
         else map (\<lambda>t. \<lparr>item_type = presentation, item_title = t\<rparr>) titles)"

fun build_desired :: "(string \<times> string) list \<Rightarrow> nat \<Rightarrow> source_item list \<Rightarrow> desired_item list" where
  \<comment> \<open>the loop \<open>for (let i = 0; i < desiredSource.length; i++)\<close>, from index \<open>i\<close> on\<close>
  "build_desired lib i [] = []"
| "build_desired lib i (it # rest) =
     (if item_type it = header
      then DesiredHeader (item_title it) i # build_desired lib (Suc i) rest
      else
        (case refsByNorm lib (normalizeTitle (item_title it)) of
           [] \<Rightarrow> build_desired lib (Suc i) rest
         | ref # _ \<Rightarrow> DesiredPresentation (snd ref) # build_desired lib (Suc i) rest))"

definition find_playlist :: "(string \<times> string) list \<Rightarrow> string \<Rightarrow> string option" where
  \<comment> \<open>the first object of the playlists response with a non-empty name and id whose
      normalized name is the normalized playlist name\<close>
  "find_playlist pls name =
     map_option snd
       (List.find (\<lambda>(nm, ident). nm \<noteq> [] \<and> ident \<noteq> [] \<and> normalizeTitle nm = normalizeTitle name) pls)"

definition status_2xx :: "nat \<Rightarrow> bool" where
  "status_2xx s \<longleftrightarrow> 200 \<le> s \<and> s < 300"

definition opt_str :: "string option \<Rightarrow> string" where
  \<comment> \<open>an optional string field read where JavaScript tests it for truthiness: absent and
      empty are both falsy\<close>
  "opt_str s = (case s of None \<Rightarrow> [] | Some x \<Rightarrow> x)"

definition current_ref :: "playlist_entry \<Rightarrow> string" where
  "current_ref it =
     (if entry_type it = ''presentation'' \<and> opt_str (entry_uuid it) \<noteq> []
      then ''p:'' @ opt_str (entry_uuid it)
      else if entry_type it = ''header'' \<and> opt_str (entry_name it) \<noteq> []
      then ''h:'' @ normalizeTitle (opt_str (entry_name it))
      else [])"

definition currentRefs :: "playlist_entry list \<Rightarrow> string list" where
  \<comment> \<open>\<open>currentItems.map(...).filter(Boolean)\<close>\<close>
  "currentRefs its = filter (\<lambda>r. r \<noteq> []) (map current_ref its)"

definition desired_ref :: "desired_item \<Rightarrow> string" where
  "desired_ref it =
     (case it of
        DesiredPresentation u \<Rightarrow> ''p:'' @ u
      | DesiredHeader n i \<Rightarrow> ''h:'' @ normalizeTitle n)"

definition desiredRefs :: "desired_item list \<Rightarrow> string list" where
  "desiredRefs desired = map desired_ref desired"

definition refs_equal :: "string list \<Rightarrow> string list \<Rightarrow> bool" where
  \<comment> \<open>\<open>currentRefs.length === desiredRefs.length
        && currentRefs.every((x, i) => x === desiredRefs[i])\<close>\<close>
  "refs_equal cur des \<longleftrightarrow>
     length cur = length des \<and> list_all (\<lambda>i. cur ! i = des ! i) [0 ..< length cur]"

definition diff_and_replace ::
  "bool \<Rightarrow> string \<Rightarrow> nat \<Rightarrow> nat \<Rightarrow> string list \<Rightarrow> desired_item list \<Rightarrow> nat
     \<Rightarrow> sync_result \<times> request list" where
  \<comment> \<open>the end of \<open>syncPlaylist\<close>, once the playlist id is known: compare the current
      references with the desired ones and replace the playlist when they differ; the
      second component lists the write requests sent\<close>
  "diff_and_replace was_created pid total_desired total_resolved cur desired put =
     (let equal = refs_equal cur (desiredRefs desired)
      in if equal
         then (\<lparr>ok = True, changed = False, created = Some was_created, playlistId = Some pid,
                 totalDesired = total_desired, totalResolved = total_resolved, error = None\<rparr>, [])
         else
           (if status_2xx put
            then \<lparr>ok = True, changed = True, created = Some was_created, playlistId = Some pid,
                   totalDesired = total_desired, totalResolved = total_resolved, error = None\<rparr>
            else \<lparr>ok = False, changed = False, created = Some was_created,
                   playlistId = Some pid, totalDesired = total_desired,
                   totalResolved = total_resolved, error = Some (PutStatus put)\<rparr>,
            [ReplacePlaylist pid desired]))"

definition syncPlaylist :: "sync_payload \<Rightarrow> host_world \<Rightarrow> sync_result \<times> request list" where
  "syncPlaylist payload w =
     (let titles = (case titles payload of None \<Rightarrow> [] | Some ts \<Rightarrow> ts);
          source = desiredSource payload
      in if host payload = [] \<or> port payload = 0
         then (\<lparr>ok = False, changed = False, created = None, playlistId = None,
                 totalDesired = length source, totalResolved = 0,
                 error = Some MissingHostPort\<rparr>, [])
         else
           (let desired = build_desired (library_names w) 0 source;
                total_desired = length source;
                total_resolved = length desired
            in case find_playlist (playlists w) (playlist_name payload) of
                 Some pid \<Rightarrow>
                   diff_and_replace False pid total_desired total_resolved
                     (currentRefs (current_items w)) desired (put_status w)
               | None \<Rightarrow>
                   (case (if status_2xx (create_status w) then create_id w else None) of
                      Some pid \<Rightarrow>
                        if pid \<noteq> [] then
                          (case diff_and_replace True pid total_desired total_resolved
                                  (currentRefs (current_items w)) desired (put_status w) of
                             (r, reqs) \<Rightarrow> (r, CreatePlaylist (playlist_name payload) # reqs))
                        else
                          (\<lparr>ok = False, changed = False, created = None, playlistId = None,
                             totalDesired = length titles, totalResolved = length desired,
                             error = Some NoPlaylist\<rparr>,
                           [CreatePlaylist (playlist_name payload)])
                    | None \<Rightarrow>
                        (\<lparr>ok = False, changed = False, created = None, playlistId = None,
                           totalDesired = length titles, totalResolved = length desired,
                           error = Some NoPlaylist\<rparr>,
                         [CreatePlaylist (playlist_name payload)]))))"

text \<open>
  A presentation of the request is unresolved when no library name has its normalized
  title; \<open>header_names\<close> reads the headers of a replacement payload.
\<close>

definition unresolved :: "(string \<times> string) list \<Rightarrow> source_item \<Rightarrow> bool" where
  "unresolved lib it \<longleftrightarrow>
     item_type it = presentation \<and> refsByNorm lib (normalizeTitle (item_title it)) = []"

fun header_names :: "desired_item list \<Rightarrow> string list" where
  "header_names [] = []"
| "header_names (DesiredHeader n i # r) = n # header_names r"
| "header_names (DesiredPresentation u # r) = header_names r"

section \<open>Plan ingestion: slicing at the SERVICE header\<close>

text \<open>
  One node of the plan source's item list, with the attributes \<open>getNextPlan\<close> reads from
  it. The description, the notes and the category of an item are computed from the node
  alone (\<open>extractNotes\<close>, \<open>classifyPlanItem\<close>); they are carried as \<open>details\<close>, the value of
  a function \<open>derive\<close> of the node.
\<close>

record raw_item =
  raw_id :: string
  attr_item_type :: "string option"
  attr_category :: "string option"
  attr_title :: "string option"
  attr_description :: "string option"
  attr_sequence :: "int option"
  attr_position :: "int option"
  attr_length :: "int option"
  attr_length_seconds :: "int option"
  attr_length_in_seconds :: "int option"

datatype item_kind = song | video | announcement

record 'x plan_item =
  item_id :: string
  kind :: item_kind
  title :: string
  order :: int
  details :: 'x
  isHeader :: "bool option"
  lengthSeconds :: "int option"

record items_response =
  resp_status :: nat
  resp_data :: "raw_item list option"

fun first_truthy :: "string option list \<Rightarrow> string \<Rightarrow> string" where
  \<comment> \<open>\<open>a || b || dflt\<close> on optional strings: the first one present and non-empty\<close>
  "first_truthy [] dflt = dflt"
| "first_truthy (None # r) dflt = first_truthy r dflt"
| "first_truthy (Some s # r) dflt = (if s \<noteq> [] then s else first_truthy r dflt)"

fun first_number :: "int option list \<Rightarrow> int option" where
  \<comment> \<open>the chain \<open>typeof a === 'number' ? a : typeof b === 'number' ? b : ...\<close>\<close>
  "first_number [] = None"
| "first_number (Some n # r) = Some n"
| "first_number (None # r) = first_number r"

definition node_itemType :: "raw_item \<Rightarrow> string" where
  "node_itemType n = toLowerCase (first_truthy [attr_item_type n, attr_category n] [])"

definition node_isHeader :: "raw_item \<Rightarrow> bool" where
  "node_isHeader n \<longleftrightarrow> node_itemType n = ''header''"

definition node_kind :: "raw_item \<Rightarrow> item_kind" where
  "node_kind n =
     (if node_isHeader n then announcement
      else if str_includes (node_itemType n) ''song'' then song
      else if str_includes (node_itemType n) ''media'' \<or> str_includes (node_itemType n) ''video''
      then video
      else announcement)"

definition node_title :: "raw_item \<Rightarrow> string" where
  "node_title n = first_truthy [attr_title n, attr_description n] ''Untitled''"

definition node_order :: "raw_item \<Rightarrow> nat \<Rightarrow> int" where
  \<comment> \<open>the second argument is the number of items pushed so far\<close>
  "node_order n pushed =
     (case first_number [attr_sequence n, attr_position n] of
        Some k \<Rightarrow> k | None \<Rightarrow> int pushed + 1)"

definition node_len :: "raw_item \<Rightarrow> int option" where
  "node_len n = first_number [attr_length n, attr_length_seconds n, attr_length_in_seconds n]"

fun first_pass :: "(raw_item \<Rightarrow> 'x) \<Rightarrow> nat \<Rightarrow> raw_item list \<Rightarrow> 'x plan_item list" where
  \<comment> \<open>the first loop over \<open>itemsResp.json.data\<close>\<close>
  "first_pass derive pushed [] = []"
| "first_pass derive pushed (n # ns) =
     \<lparr>item_id = raw_id n, kind = node_kind n, title = node_title n,
      order = node_order n pushed, details = derive n,
      isHeader = Some (node_isHeader n), lengthSeconds = None\<rparr>
     # first_pass derive (Suc pushed) ns"

fun rebuild :: "(raw_item \<Rightarrow> 'x) \<Rightarrow> nat \<Rightarrow> raw_item list \<Rightarrow> 'x plan_item list" where
  \<comment> \<open>the loop over \<open>sliced\<close>\<close>
  "rebuild derive pushed [] = []"
| "rebuild derive pushed (n # ns) =
     \<lparr>item_id = raw_id n, kind = node_kind n, title = node_title n,
      order = node_order n pushed, details = derive n,
      isHeader = (if node_isHeader n then Some True else None),
      lengthSeconds = node_len n\<rparr>
     # rebuild derive (Suc pushed) ns"

definition slice_norm :: "string \<Rightarrow> string" where
  \<comment> \<open>\<open>String(s ?? '').trim().toLowerCase().replace(/\s+/g, ' ')\<close>\<close>
  "slice_norm s = collapse_ws (toLowerCase (trim s))"

definition isServiceHeader :: "raw_item \<Rightarrow> bool" where
  "isServiceHeader n \<longleftrightarrow>
     (let t = slice_norm (first_truthy [attr_title n, attr_description n] [])
      in if \<not> node_isHeader n then False
         else if prefix ''pre-service'' t \<or> prefix ''post-service'' t then False
         else prefix ''service'' t \<and> at_word_end (drop 7 t))"

fun findIndex :: "('a \<Rightarrow> bool) \<Rightarrow> 'a list \<Rightarrow> nat option" where
  \<comment> \<open>\<open>data.findIndex(p)\<close>, with \<open>None\<close> for -1\<close>
  "findIndex p [] = None"
| "findIndex p (x # xs) =
     (if p x then Some 0 else map_option Suc (findIndex p xs))"

definition plan_items :: "(raw_item \<Rightarrow> 'x) \<Rightarrow> items_response \<Rightarrow> 'x plan_item list" where
  \<comment> \<open>the \<open>items\<close> of the plan \<open>getNextPlan\<close> returns, from the items response\<close>
  "plan_items derive resp =
     (let items = (case resp_data resp of
                     Some d \<Rightarrow> if status_2xx (resp_status resp) then first_pass derive 0 d else []
                   | None \<Rightarrow> [])
      in case resp_data resp of
           None \<Rightarrow> items
         | Some d \<Rightarrow>
             (case findIndex isServiceHeader d of
                None \<Rightarrow> items
              | Some startIdx \<Rightarrow> rebuild derive 0 (drop startIdx d)))"

definition item_from :: "(raw_item \<Rightarrow> 'x) \<Rightarrow> raw_item \<Rightarrow> 'x plan_item \<Rightarrow> bool" where
  \<comment> \<open>the item is the one built from the node\<close>
  "item_from derive n it \<longleftrightarrow>
     item_id it = raw_id n \<and> kind it = node_kind n \<and> title it = node_title n
     \<and> details it = derive n \<and> (isHeader it = Some True) = node_isHeader n"

section \<open>Media matching\<close>

text \<open>
  The score of \<open>selectMediaMatch\<close>, the update timestamps and the clock are JavaScript
  numbers, that is IEEE doubles, and the arithmetic on them rounds. The model is therefore
  parametric in the number type \<open>'f\<close> and in the operations the function applies to it:
  \<open>'f\<close> is any linear order (the doubles without NaN, the two zeros identified:
  \<open>parsePossibleTimestamp\<close> returns no NaN and the operations below produce none from
  finite arguments), and the operations are the fields of a record of which nothing is
  assumed. Whatever is proved below therefore holds of the rounding arithmetic of the code.

  \<^item> \<open>js_num k\<close> is the number of the integer \<open>k\<close>; \<open>js_num 0\<close> is the zero of \<open>'f\<close>.
  \<^item> \<open>js_add\<close>, \<open>js_sub\<close>, \<open>js_div\<close> are \<open>+\<close>, \<open>-\<close> and \<open>/\<close> on numbers.
  \<^item> \<open>js_isFinite\<close> is \<open>Number.isFinite\<close>.
  \<^item> \<open>Math.max(0, x)\<close> and the comparisons \<open>>\<close>, \<open>===\<close> are those of the order.

  \<open>Date.now()\<close> is read once in every iteration that has a timestamp; \<open>clock i\<close> is the
  reading in the iteration of the \<open>i\<close>-th item.
\<close>

record 'f js_number_ops =
  js_num :: "int \<Rightarrow> 'f"
  js_add :: "'f \<Rightarrow> 'f \<Rightarrow> 'f"
  js_sub :: "'f \<Rightarrow> 'f \<Rightarrow> 'f"
  js_div :: "'f \<Rightarrow> 'f \<Rightarrow> 'f"
  js_isFinite :: "'f \<Rightarrow> bool"

text \<open>
  A media playlist item, by the fields \<open>selectMediaMatch\<close> reads; the other optional
  fields (\<open>id\<close>, \<open>playlistUuid\<close>, \<open>playlistName\<close>, \<open>documentsRelativePath\<close>, \<open>formatHint\<close>) are
  copied into the match unchanged. A match is the item with its score.
\<close>

record 'f media_item =
  media_uuid :: string
  media_name :: string
  updatedAt :: "'f option"
  media_keywords :: "string list"
  filePath :: "string option"

definition TRANSITION_TOPIC_STOP_WORDS :: "string list" where
  "TRANSITION_TOPIC_STOP_WORDS =
     [''the'', ''and'', ''for'', ''with'', ''from'', ''into'', ''after'', ''next'', ''step'',
      ''story'', ''jr'', ''jr.'', ''grades'', ''grade'', ''service'', ''news'']"

definition split_ws :: "string \<Rightarrow> string list" where
  \<comment> \<open>\<open>s.split(/\s+/)\<close>: every run of white space is one separator\<close>
  "split_ws s = split_on CHR '' '' (collapse_ws s)"

definition remove_ws :: "string \<Rightarrow> string" where
  \<comment> \<open>\<open>s.replace(/\s+/g, '')\<close>\<close>
  "remove_ws s = filter (\<lambda>c. \<not> is_space c) s"

definition topic_canonical :: "string \<Rightarrow> string" where
  \<comment> \<open>\<open>topic.toLowerCase().replace(/[^a-z0-9]+/g, ' ').trim()\<close>\<close>
  "topic_canonical topic = trim (replace_non_alnum (map of_char (toLowerCase topic)))"

definition topic_tokens :: "string \<Rightarrow> string list" where
  "topic_tokens canonical =
     filter (\<lambda>token. length token \<ge> 3 \<and> token \<notin> set TRANSITION_TOPIC_STOP_WORDS)
       (split_ws canonical)"

definition hayString :: "'f media_item \<Rightarrow> string" where
  "hayString item = join_with '' '' (map toLowerCase (media_keywords item))"

definition hayCompact :: "'f media_item \<Rightarrow> string" where
  "hayCompact item = remove_ws (hayString item)"

definition partial_of :: "string \<Rightarrow> string" where
  \<comment> \<open>\<open>token.slice(0, Math.max(3, Math.ceil(token.length * 0.6)))\<close>. The double
      \<open>0.6\<close> lies below six tenths by less than \<open>2.3e-17\<close>, so for a length \<open>n\<close> divisible
      by 5 the product rounds to the integer \<open>3 n / 5\<close>, and otherwise it stays at least
      \<open>0.19\<close> away from an integer: the ceiling is \<open>(3 n + 4) div 5\<close>\<close>
  "partial_of token = take (max 3 ((3 * length token + 4) div 5)) token"

definition token_score :: "'f media_item \<Rightarrow> string \<Rightarrow> int" where
  \<comment> \<open>what one iteration of \<open>for (const token of tokens)\<close> adds to \<open>score\<close>\<close>
  "token_score item token =
     (if str_includes (hayString item) token then 10
      else if str_includes (hayCompact item) token then 6
      else if length token \<ge> 5 then
        (let partial = partial_of token
         in if partial \<noteq> [] \<and> str_includes (hayString item) partial then 2 else 0)
      else 0)"

text \<open>
  Up to the recency bonus \<open>score\<close> is \<open>0\<close> to which the integers 30, 15, 8, 10, 6 and 2
  have been added, at most once per token and three times more. Each of these sums is a
  non-negative integer below \<open>53 + 10 * topic.length\<close>, far below \<open>2 ^ 53\<close>, so every one
  of them is a double and none of these additions rounds: this part of the score is an
  integer, and it enters the arithmetic on numbers as \<open>js_num\<close> of it.
\<close>

definition keyword_score :: "string \<Rightarrow> 'f media_item \<Rightarrow> int" where
  \<comment> \<open>\<open>score\<close> after the loop over \<open>tokens\<close>\<close>
  "keyword_score topic item =
     (let canonical = topic_canonical topic;
          compactTopic = remove_ws canonical;
          tokens = topic_tokens canonical;
          s1 = (if str_includes (hayString item) canonical then 30 else 0);
          s2 = s1 + (if compactTopic \<noteq> [] \<and> str_includes (hayCompact item) compactTopic
                     then 15 else 0);
          s3 = s2 + (if str_includes (toLowerCase (media_name item)) (toLowerCase topic)
                     then 8 else 0)
      in foldl (\<lambda>score token. score + token_score item token) s3 tokens)"

definition recency :: "'f::linorder js_number_ops \<Rightarrow> 'f \<Rightarrow> 'f media_item \<Rightarrow> 'f option" where
  \<comment> \<open>the block \<open>if (item.updatedAt) { ... }\<close>: the number added to \<open>score\<close>, if one is;
      \<open>now\<close> is the value of \<open>Date.now()\<close> in this iteration\<close>
  "recency ops now item =
     (case updatedAt item of
        None \<Rightarrow> None
      | Some u \<Rightarrow>
          if u = js_num ops 0 then None
          else (let ageDays = js_div ops (js_sub ops now u) (js_num ops 86400000)
                in if js_isFinite ops ageDays
                   then Some (max (js_num ops 0) (js_sub ops (js_num ops 10) ageDays))
                   else None))"

definition item_score :: "'f::linorder js_number_ops \<Rightarrow> string \<Rightarrow> 'f \<Rightarrow> 'f media_item \<Rightarrow> 'f" where
  \<comment> \<open>the body of \<open>for (const item of items)\<close> up to the comparison with \<open>best\<close>\<close>
  "item_score ops topic now item =
     (let score = js_num ops (keyword_score topic item)
      in case recency ops now item of
           None \<Rightarrow> score
         | Some r \<Rightarrow> js_add ops score r)"

definition updated_or_0 :: "'f js_number_ops \<Rightarrow> 'f media_item \<Rightarrow> 'f" where
  \<comment> \<open>\<open>item.updatedAt ?? 0\<close>\<close>
  "updated_or_0 ops item = (case updatedAt item of None \<Rightarrow> js_num ops 0 | Some u \<Rightarrow> u)"

definition best_step ::
  "'f::linorder js_number_ops \<Rightarrow> string \<Rightarrow> 'f \<Rightarrow> ('f media_item \<times> 'f) option \<Rightarrow> 'f media_item
     \<Rightarrow> ('f media_item \<times> 'f) option" where
  \<comment> \<open>one iteration: the score, then the comparison with \<open>best\<close>\<close>
  "best_step ops topic now best item =
     (let score = item_score ops topic now item
      in case best of
           None \<Rightarrow> Some (item, score)
         | Some (b, bscore) \<Rightarrow>
             if score > bscore
                \<or> (score = bscore \<and> updated_or_0 ops item > updated_or_0 ops b)
             then Some (item, score) else best)"

fun best_loop ::
  "'f::linorder js_number_ops \<Rightarrow> string \<Rightarrow> (nat \<Rightarrow> 'f) \<Rightarrow> nat \<Rightarrow> ('f media_item \<times> 'f) option
     \<Rightarrow> 'f media_item list \<Rightarrow> ('f media_item \<times> 'f) option" where
  \<comment> \<open>\<open>for (const item of items)\<close> from the \<open>i\<close>-th item on\<close>
  "best_loop ops topic clock i best [] = best"
| "best_loop ops topic clock i best (item # rest) =
     best_loop ops topic clock (Suc i) (best_step ops topic (clock i) best item) rest"

fun insert_desc :: "('a \<Rightarrow> 'f::linorder) \<Rightarrow> 'a \<Rightarrow> 'a list \<Rightarrow> 'a list" where
  "insert_desc k x [] = [x]"
| "insert_desc k x (y # ys) = (if k y \<le> k x then x # y # ys else y # insert_desc k x ys)"

definition sort_desc :: "('a \<Rightarrow> 'f::linorder) \<Rightarrow> 'a list \<Rightarrow> 'a list" where
  \<comment> \<open>\<open>xs.slice().sort((a, b) => k(b) - k(a))\<close>: stable, greatest key first\<close>
  "sort_desc k xs = foldr (insert_desc k) xs []"

definition selectMediaMatch ::
  "'f::linorder js_number_ops \<Rightarrow> string \<Rightarrow> 'f media_item list \<Rightarrow> (nat \<Rightarrow> 'f)
     \<Rightarrow> ('f media_item \<times> 'f) option" where
  "selectMediaMatch ops topic media clock =
     (if topic = [] \<or> media = [] then None
      else if topic_canonical topic = [] then None
      else
        (case best_loop ops topic clock 0 None media of
           Some best \<Rightarrow> Some best
         | None \<Rightarrow>
             (case sort_desc (updated_or_0 ops) media of
                [] \<Rightarrow> None
              | fallback # _ \<Rightarrow> Some (fallback, js_num ops 0))))"

text \<open>
  The score as the specification words it, written from its words and not from the code.
  The keyword text of an asset and the normalized topic are named by the wording and not
  defined by it; they are the strings the code gathers (\<open>hayString\<close>, \<open>canonical\<close>).
  A text contains another when the other is a contiguous part of it (\<^const>\<open>sublist\<close>).
  The words of a text are its maximal runs of characters that are not white space. The
  collapsed form of a text is the text without its white space. A token is significant
  when it has at least 3 characters and is no stop word. The 60 % prefix of a token is its
  shortest prefix that holds at least 60 % of its characters.
\<close>

function spec_words :: "string \<Rightarrow> string list" where
  "spec_words s =
     (let t = dropWhile is_space s
      in if t = [] then []
         else takeWhile (\<lambda>c. \<not> is_space c) t # spec_words (dropWhile (\<lambda>c. \<not> is_space c) t))"
  by pat_completeness auto
termination
proof (relation "measure length", goal_cases)
  case 1
  show ?case by simp
next
  case (2 s t)
  then have "dropWhile is_space s \<noteq> []" by blast
  then obtain c cs where t: "dropWhile is_space s = c # cs"
    unfolding neq_Nil_conv by blast
  then have "\<not> is_space c" using hd_dropWhile [of is_space s] by simp
  then have "length (dropWhile (\<lambda>c. \<not> is_space c) (c # cs)) \<le> length cs"
    by (simp add: length_dropWhile_le)
  also have "\<dots> < length (c # cs)" by simp
  also have "\<dots> \<le> length s" unfolding t [symmetric] by (rule length_dropWhile_le)
  finally show ?case using 2 t by simp
qed

declare spec_words.simps [simp del]

definition spec_collapsed :: "string \<Rightarrow> string" where
  "spec_collapsed text = [c \<leftarrow> text. \<not> is_space c]"

definition spec_significant :: "string \<Rightarrow> bool" where
  "spec_significant token \<longleftrightarrow> 3 \<le> length token \<and> token \<notin> set TRANSITION_TOPIC_STOP_WORDS"

definition spec_prefix60 :: "string \<Rightarrow> string" where
  "spec_prefix60 token = take (LEAST k. 60 * length token \<le> 100 * k) token"

definition spec_token_points :: "string \<Rightarrow> string \<Rightarrow> int" where
  \<comment> \<open>per token: 10 if it occurs in the keyword text, else 6 if it occurs in the collapsed
      keyword text, else 2 for a 60 % prefix match on a token of at least 5 characters\<close>
  "spec_token_points text token =
     (if sublist token text then 10
      else if sublist token (spec_collapsed text) then 6
      else if 5 \<le> length token \<and> sublist (spec_prefix60 token) text then 2
      else 0)"

definition spec_keyword_points :: "string \<Rightarrow> 'f media_item \<Rightarrow> int" where
  \<comment> \<open>30 for the full normalized topic in the keyword text, 15 for the collapsed topic in
      the collapsed keyword text, and the points of every significant token\<close>
  "spec_keyword_points topic item =
     (let text = hayString item; normalized = topic_canonical topic
      in (if sublist normalized text then 30 else 0)
         + (if sublist (spec_collapsed normalized) (spec_collapsed text) then 15 else 0)
         + (\<Sum>token \<leftarrow> filter spec_significant (spec_words normalized).
              spec_token_points text token))"

definition spec_ageInDays :: "'f js_number_ops \<Rightarrow> 'f \<Rightarrow> 'f \<Rightarrow> 'f" where
  \<comment> \<open>the milliseconds since the update, over the milliseconds of a day\<close>
  "spec_ageInDays ops now u = js_div ops (js_sub ops now u) (js_num ops (24 * 60 * 60 * 1000))"

definition spec_recency_bonus :: "'f::linorder js_number_ops \<Rightarrow> 'f \<Rightarrow> 'f \<Rightarrow> 'f" where
  \<comment> \<open>\<open>max(0, 10 - ageInDays)\<close>\<close>
  "spec_recency_bonus ops now u =
     max (js_num ops 0) (js_sub ops (js_num ops 10) (spec_ageInDays ops now u))"

text \<open>
  The term the wording leaves out, and the score with it: 8 more points when the lowercased
  name of the asset contains the lowercased raw topic, and the recency bonus added only for
  a timestamp that is not zero and whose age is finite.
\<close>

definition name_bonus :: "string \<Rightarrow> 'f media_item \<Rightarrow> int" where
  "name_bonus topic item =
     (if sublist (toLowerCase topic) (toLowerCase (media_name item)) then 8 else 0)"

definition amended_score :: "'f::linorder js_number_ops \<Rightarrow> string \<Rightarrow> 'f \<Rightarrow> 'f media_item \<Rightarrow> 'f" where
  "amended_score ops topic now item =
     (let points = js_num ops (spec_keyword_points topic item + name_bonus topic item)
      in case updatedAt item of
           None \<Rightarrow> points
         | Some u \<Rightarrow>
             if u \<noteq> js_num ops 0 \<and> js_isFinite ops (spec_ageInDays ops now u)
             then js_add ops points (spec_recency_bonus ops now u)
             else points)"

text \<open>
  What it means for a match to be the best of the first \<open>n\<close> items: it is one of them with
  its own score, none of them scores higher, and none of them with the same score was
  updated later.
\<close>

definition best_of ::
  "'f::linorder js_number_ops \<Rightarrow> string \<Rightarrow> (nat \<Rightarrow> 'f) \<Rightarrow> 'f media_item list \<Rightarrow> nat
     \<Rightarrow> 'f media_item \<times> 'f \<Rightarrow> bool" where
  "best_of ops topic clock media n p \<longleftrightarrow>
     (\<exists>i<n. fst p = media ! i \<and> snd p = item_score ops topic (clock i) (media ! i))
     \<and> (\<forall>j<n. item_score ops topic (clock j) (media ! j) \<le> snd p
            \<and> (item_score ops topic (clock j) (media ! j) = snd p
                 \<longrightarrow> updated_or_0 ops (media ! j) \<le> updated_or_0 ops (fst p)))"

section \<open>Presentation sync orchestrator\<close>

text \<open>
  \<open>runPresentationSync\<close> awaits its collaborators one after the other, so a run is a
  function of the payload and of what each collaborator answers. An awaited call either
  returns or rejects; the calls that spawn the rewrite tool (\<open>runCommand\<close> rejects when the
  process cannot be spawned) are modelled with both outcomes, the others catch their own
  errors and always return. The run yields its result and the trace of the calls that
  touch the host process or a presentation file.
\<close>

datatype 'a outcome = Returned 'a | Threw string

record sync_item =
  si_isHeader :: bool
  si_title :: string
  si_id :: string
  si_notes :: "string option"
  si_description :: "string option"
  si_category :: "string option"
  si_kind :: item_kind

text \<open>
  What the rewrite tool answers for one plan item: the \<open>ok\<close> flag of
  \<open>applySongTemplate\<close>, of \<open>applyTransitionTemplate\<close> and of \<open>writeOperatorNotesFile\<close>, or the
  message of the rejection. The payload of a transition (timer length, lower third, topics
  with their media) is built just before \<open>applyTransitionTemplate\<close> is awaited, outside any
  \<open>try\<close>; \<open>transition_result\<close> is the outcome of that whole branch. The payload itself is
  not part of the trace.
\<close>

record item_io =
  song_result :: "bool outcome"
  transition_result :: "bool outcome"
  notes_result :: "bool outcome"

record sync_plan =
  sp_title :: string
  sp_items :: "sync_item list"

record fetch_result =
  fetch_ok :: bool
  fetch_plan :: "sync_plan option"
  fetch_error :: "string option"

record index_entry =
  entry_path :: string
  entry_title :: "string option"

datatype index_result =
  IndexFailed string
| Indexed "(string \<times> index_entry) list"

record call_result =
  call_ok :: bool
  call_message :: "string option"

record run_payload =
  rp_host :: string
  rp_port :: nat
  rp_libraryRoot :: string
  rp_reopen :: "bool option"
  rp_categories :: "string list option"
  rp_itemIds :: "string list option"

text \<open>
  The collaborators of one run. \<open>env_matches\<close> is the uuid \<open>matchPresentations\<close> found for a
  title; \<open>env_title_category\<close> is the title cascade of \<open>resolvePlanItemCategory\<close>;
  \<open>env_sections\<close> is the section payload built from an item's song details;
  \<open>env_path_stem\<close> is \<open>path.basename(p, path.extname(p))\<close>; \<open>env_io i\<close> holds the answers of
  the rewrite tool for the \<open>i\<close>-th plan item. The transition timer, the stage layout, the
  clear prop and the Titles media playlist are looked up before the host is closed; each
  may be absent.
\<close>

record ('p, 'f) sync_env =
  env_darwin :: bool
  env_fetch :: "fetch_result outcome"
  env_matches :: "string \<Rightarrow> string option"
  env_timer :: "string option"
  env_stage_layout :: "string option"
  env_index :: index_result
  env_path_stem :: "string \<Rightarrow> string"
  env_titles_media :: "'f media_item list option"
  env_clear_prop :: "string option"
  env_quit :: call_result
  env_title_category :: "sync_item \<Rightarrow> string option"
  env_sections :: "sync_item \<Rightarrow> 'p list"
  env_io :: "nat \<Rightarrow> item_io"
  env_launch :: call_result

datatype event =
  Quit
| SongRewrite string
| TransitionRewrite string "string option" "string option" "string option"
| NotesWrite string
| Launch

record tally =
  updated :: nat
  skipped :: nat
  noDesc :: nat
  missingPath :: nat
  writeErrors :: nat

record loop_state =
  ls_summary :: tally
  ls_categories :: "(string \<times> string) list"
  ls_missing :: "(string \<times> string) list"
  ls_trace :: "event list"

record done_result =
  planTitle :: string
  run_summary :: tally
  run_missing :: "(string \<times> string) list"
  run_reopen :: "string option"
  run_categories :: "(string \<times> string) list"

definition canonicalUuid :: "string \<Rightarrow> string option" where
  "canonicalUuid val =
     (if val = [] then None
      else
        (let str = trim val
         in if str = [] then None
            else
              (let normalized = toLowerCase (filter (\<lambda>c. c \<noteq> CHR ''{'' \<and> c \<noteq> CHR ''}'') str)
               in if normalized \<noteq> [] then Some normalized else None)))"

definition resolvePlanItemCategory :: "(sync_item \<Rightarrow> string option) \<Rightarrow> sync_item \<Rightarrow> string option" where
  \<comment> \<open>a non-blank \<open>category\<close> of the item wins; otherwise the title cascade decides\<close>
  "resolvePlanItemCategory cascade item =
     (let raw = (case si_category item of Some c \<Rightarrow> trim c | None \<Rightarrow> [])
      in if raw \<noteq> [] then Some raw else cascade item)"

definition requested :: "string list option \<Rightarrow> string list" where
  \<comment> \<open>\<open>Array.isArray(xs) ? xs.map((x) => String(x || '').trim()).filter((x) => x.length > 0)
      : []\<close>\<close>
  "requested xs = (case xs of None \<Rightarrow> [] | Some l \<Rightarrow> filter (\<lambda>x. x \<noteq> []) (map trim l))"

definition categoryFilter :: "run_payload \<Rightarrow> string set option" where
  "categoryFilter p =
     (let requestedCategories = requested (rp_categories p)
      in if requestedCategories \<noteq> [] then Some (set (map toLowerCase requestedCategories))
         else None)"

definition idFilter :: "run_payload \<Rightarrow> string set option" where
  "idFilter p =
     (let requestedIds = requested (rp_itemIds p)
      in if requestedIds \<noteq> [] then Some (set requestedIds) else None)"

definition titleMap_get ::
  "(string \<Rightarrow> string) \<Rightarrow> (string \<times> index_entry) list \<Rightarrow> string \<Rightarrow> index_entry option" where
  \<comment> \<open>\<open>titleMap.get(key)\<close> for a non-empty key: the first entry with a path filed under
      the normalized title (or file stem)\<close>
  "titleMap_get stem entries key =
     List.find
       (\<lambda>e. entry_path e \<noteq> []
            \<and> normalizeTitle (if opt_str (entry_title e) \<noteq> [] then opt_str (entry_title e)
                               else stem (entry_path e)) = key)
       (map snd entries)"

definition find_hit ::
  "(string \<Rightarrow> string) \<Rightarrow> (string \<times> index_entry) list \<Rightarrow> string \<Rightarrow> string
     \<Rightarrow> index_entry option" where
  \<comment> \<open>\<open>mapByUuid[uuidRaw] || mapByUuid[canon] || titleMap.get(titleKey)\<close>\<close>
  "find_hit stem entries uuidRaw trimmedTitle =
     (case map_of entries uuidRaw of
        Some e \<Rightarrow> Some e
      | None \<Rightarrow>
          (case (case canonicalUuid uuidRaw of
                   Some canon \<Rightarrow> map_of entries canon | None \<Rightarrow> None) of
             Some e \<Rightarrow> Some e
           | None \<Rightarrow>
               (let titleKey = normalizeTitle trimmedTitle
                in if titleKey \<noteq> [] then titleMap_get stem entries titleKey else None)))"

record ('p, 'f) loop_ctx =
  ctx_env :: "('p, 'f) sync_env"
  ctx_entries :: "(string \<times> index_entry) list"
  ctx_idFilter :: "string set option"
  ctx_categoryFilter :: "string set option"

definition bump_updated :: "tally \<Rightarrow> tally" where
  "bump_updated t = t\<lparr>updated := updated t + 1\<rparr>"

definition bump_skipped :: "tally \<Rightarrow> tally" where
  "bump_skipped t = t\<lparr>skipped := skipped t + 1\<rparr>"

definition bump_noDesc :: "tally \<Rightarrow> tally" where
  "bump_noDesc t = t\<lparr>noDesc := noDesc t + 1\<rparr>"

definition bump_missingPath :: "tally \<Rightarrow> tally" where
  "bump_missingPath t = t\<lparr>missingPath := missingPath t + 1\<rparr>"

definition bump_writeErrors :: "tally \<Rightarrow> tally" where
  "bump_writeErrors t = t\<lparr>writeErrors := writeErrors t + 1\<rparr>"

definition write_notes :: "loop_state \<Rightarrow> string \<Rightarrow> bool outcome \<Rightarrow> loop_state \<times> string option" where
  \<comment> \<open>\<open>const res = await writeOperatorNotesFile(hit.path, desc)\<close> and the tally after it\<close>
  "write_notes st hitPath res =
     (let st1 = st\<lparr>ls_trace := ls_trace st @ [NotesWrite hitPath]\<rparr>
      in case res of
           Threw e \<Rightarrow> (st1, Some e)
         | Returned okay \<Rightarrow>
             if okay then (st1\<lparr>ls_summary := bump_updated (ls_summary st1)\<rparr>, None)
             else (st1\<lparr>ls_summary := bump_skipped (bump_writeErrors (ls_summary st1))\<rparr>, None))"

definition record_category :: "string option \<Rightarrow> string \<Rightarrow> loop_state \<Rightarrow> loop_state" where
  \<comment> \<open>\<open>if (categoryLabel) categoriesByUuid[uuidRaw] = categoryLabel\<close>\<close>
  "record_category categoryLabel uuidRaw st =
     (if opt_str categoryLabel \<noteq> []
      then st\<lparr>ls_categories := AList.update uuidRaw (opt_str categoryLabel) (ls_categories st)\<rparr>
      else st)"

definition song_rewrite :: "('p, 'f) sync_env \<Rightarrow> loop_state \<Rightarrow> item_io \<Rightarrow> sync_item \<Rightarrow> string \<Rightarrow> loop_state" where
  \<comment> \<open>the branch \<open>categoryLabel === 'Song'\<close>: the rewrite is skipped when there is no
      section to write; a failure and a rejection are both tallied and caught\<close>
  "song_rewrite env st io item hitPath =
     (if env_sections env item = [] then st
      else
        (let st1 = st\<lparr>ls_trace := ls_trace st @ [SongRewrite hitPath]\<rparr>
         in case song_result io of
              Returned okay \<Rightarrow>
                if \<not> okay then st1\<lparr>ls_summary := bump_writeErrors (ls_summary st1)\<rparr> else st1
            | Threw e \<Rightarrow> st1\<lparr>ls_summary := bump_writeErrors (ls_summary st1)\<rparr>))"

definition apply_item ::
  "('p, 'f) sync_env \<Rightarrow> loop_state \<Rightarrow> item_io \<Rightarrow> sync_item \<Rightarrow> string option \<Rightarrow> string \<Rightarrow> string
     \<Rightarrow> loop_state \<times> string option" where
  \<comment> \<open>the rest of an iteration for an item matched to a presentation file: the rewrite
      by category, then the operator notes\<close>
  "apply_item env st io item categoryLabel uuidRaw hitPath =
     (if categoryLabel = Some ''Song'' then
        write_notes (record_category categoryLabel uuidRaw (song_rewrite env st io item hitPath))
          hitPath (notes_result io)
      else if categoryLabel = Some ''Transitions'' then
        (let st1 = st\<lparr>ls_trace := ls_trace st @
                     [TransitionRewrite hitPath (env_timer env) (env_stage_layout env)
                        (env_clear_prop env)]\<rparr>
         in case transition_result io of
              Threw e \<Rightarrow> (st1, Some e)
            | Returned okay \<Rightarrow>
                if \<not> okay
                then (st1\<lparr>ls_summary := bump_writeErrors (ls_summary st1)\<rparr>, None)
                else write_notes (record_category categoryLabel uuidRaw st1) hitPath
                       (notes_result io))
      else write_notes (record_category categoryLabel uuidRaw st) hitPath (notes_result io))"

definition id_selected :: "string set option \<Rightarrow> string \<Rightarrow> bool" where
  \<comment> \<open>\<open>!(idFilter && !idFilter.has(itemId))\<close>\<close>
  "id_selected ids itemId \<longleftrightarrow> (case ids of Some s \<Rightarrow> itemId \<in> s | None \<Rightarrow> True)"

definition category_selected :: "string set option \<Rightarrow> string option \<Rightarrow> bool" where
  \<comment> \<open>\<open>!(categoryFilter && (!categoryLabel
        || !categoryFilter.has(categoryLabel.toLowerCase())))\<close>\<close>
  "category_selected cats categoryLabel \<longleftrightarrow>
     (case cats of
        Some s \<Rightarrow> opt_str categoryLabel \<noteq> [] \<and> toLowerCase (opt_str categoryLabel) \<in> s
      | None \<Rightarrow> True)"

definition item_step ::
  "('p, 'f) loop_ctx \<Rightarrow> loop_state \<Rightarrow> nat \<times> sync_item \<Rightarrow> loop_state \<times> string option" where
  \<comment> \<open>one iteration of \<open>for (const item of items)\<close>; the second component is the message
      of an exception that leaves the loop\<close>
  "item_step ctx st ix =
     (let env = ctx_env ctx; item = snd ix; io = env_io env (fst ix)
      in if si_isHeader item then (st, None)
         else
           (let trimmedTitle = trim (si_title item); itemId = trim (si_id item)
            in if \<not> id_selected (ctx_idFilter ctx) itemId then (st, None)
               else
                 (let notesOverride = (case si_notes item of Some n \<Rightarrow> trim n | None \<Rightarrow> []);
                      descOverride = (case si_description item of Some d \<Rightarrow> trim d | None \<Rightarrow> [])
                  in if trimmedTitle = []
                     then (st\<lparr>ls_summary := bump_skipped (ls_summary st)\<rparr>, None)
                     else
                       (let categoryLabel =
                              resolvePlanItemCategory (env_title_category env) item
                        in if \<not> category_selected (ctx_categoryFilter ctx) categoryLabel
                           then (st, None)
                           else
                             (let uuidRaw = opt_str (env_matches env trimmedTitle);
                                  desc = (if descOverride \<noteq> [] then descOverride
                                          else notesOverride)
                              in if uuidRaw = []
                                 then (st\<lparr>ls_summary := bump_skipped (ls_summary st)\<rparr>, None)
                                 else if desc = []
                                 then (st\<lparr>ls_summary := bump_noDesc (ls_summary st)\<rparr>, None)
                                 else
                                   (case find_hit (env_path_stem env) (ctx_entries ctx)
                                           uuidRaw trimmedTitle of
                                      None \<Rightarrow>
                                        (st\<lparr>ls_summary := bump_missingPath (ls_summary st),
                                            ls_missing :=
                                              ls_missing st @ [(trimmedTitle, uuidRaw)]\<rparr>,
                                         None)
                                    | Some hit \<Rightarrow>
                                        if entry_path hit = []
                                        then (st\<lparr>ls_summary := bump_missingPath (ls_summary st),
                                                ls_missing :=
                                                  ls_missing st @ [(trimmedTitle, uuidRaw)]\<rparr>,
                                              None)
                                        else apply_item env st io item categoryLabel uuidRaw
                                               (entry_path hit)))))))"

fun run_loop ::
  "('p, 'f) loop_ctx \<Rightarrow> loop_state \<Rightarrow> (nat \<times> sync_item) list \<Rightarrow> loop_state \<times> string option" where
  "run_loop ctx st [] = (st, None)"
| "run_loop ctx st (ix # rest) =
     (case item_step ctx st ix of
        (st', Some e) \<Rightarrow> (st', Some e)
      | (st', None) \<Rightarrow> run_loop ctx st' rest)"

definition shouldReopen :: "run_payload \<Rightarrow> ('p, 'f) sync_env \<Rightarrow> bool" where
  \<comment> \<open>\<open>reopen !== false && process.platform === 'darwin'\<close>, \<open>reopen\<close> defaulting to true\<close>
  "shouldReopen p env \<longleftrightarrow> rp_reopen p \<noteq> Some False \<and> env_darwin env"

definition empty_tally :: tally where
  "empty_tally = \<lparr>updated = 0, skipped = 0, noDesc = 0, missingPath = 0, writeErrors = 0\<rparr>"

definition mutation_loop ::
  "run_payload \<Rightarrow> ('p, 'f) sync_env \<Rightarrow> sync_plan \<Rightarrow> (string \<times> index_entry) list
     \<Rightarrow> loop_state \<times> string option" where
  \<comment> \<open>the \<open>try\<close> block around \<open>for (const item of items)\<close>, entered after the host has
      been closed when the run reopens it\<close>
  "mutation_loop p env plan entries =
     run_loop
       \<lparr>ctx_env = env, ctx_entries = entries, ctx_idFilter = idFilter p,
        ctx_categoryFilter = categoryFilter p\<rparr>
       \<lparr>ls_summary = empty_tally, ls_categories = [], ls_missing = [],
        ls_trace = (if shouldReopen p env then [Quit] else [])\<rparr>
       (zip [0 ..< length (sp_items plan)] (sp_items plan))"

definition error_message :: "string \<Rightarrow> string" where
  \<comment> \<open>\<open>e?.message || 'Unexpected error'\<close>\<close>
  "error_message e = (if e \<noteq> [] then e else ''Unexpected error'')"

definition runPresentationSync ::
  "run_payload \<Rightarrow> ('p, 'f) sync_env \<Rightarrow> (string + done_result) \<times> event list" where
  "runPresentationSync p env =
     (if rp_host p = [] \<or> rp_port p = 0 then (Inl ''Missing host/port'', [])
      else if rp_libraryRoot p = [] then (Inl ''Missing library path'', [])
      else
        (case env_fetch env of
           Threw e \<Rightarrow> (Inl (error_message e), [])
         | Returned next \<Rightarrow>
             (case (if fetch_ok next then fetch_plan next else None) of
                None \<Rightarrow>
                  (Inl (if opt_str (fetch_error next) \<noteq> [] then opt_str (fetch_error next)
                        else ''Failed to fetch plan''), [])
              | Some plan \<Rightarrow>
                  (case env_index env of
                     IndexFailed detail \<Rightarrow> (Inl ''Library index failed'', [])
                   | Indexed entries \<Rightarrow>
                       if shouldReopen p env \<and> \<not> call_ok (env_quit env)
                       then (Inl (if opt_str (call_message (env_quit env)) \<noteq> []
                                  then opt_str (call_message (env_quit env))
                                  else ''Failed to close ProPresenter''), [Quit])
                       else
                         (let looped = mutation_loop p env plan entries;
                              st = fst looped;
                              \<comment> \<open>the \<open>finally\<close> block\<close>
                              trace = ls_trace st @ (if shouldReopen p env then [Launch] else [])
                          in case snd looped of
                               Some e \<Rightarrow> (Inl (error_message e), trace)
                             | None \<Rightarrow>
                                 (Inr \<lparr>planTitle = sp_title plan,
                                       run_summary = ls_summary st,
                                       run_missing = ls_missing st,
                                       run_reopen =
                                         (if shouldReopen p env \<and> \<not> call_ok (env_launch env)
                                          then call_message (env_launch env) else None),
                                       run_categories = ls_categories st\<rparr>,
                                  trace))))))"

text \<open>
  The four buckets of the run summary, the items of a plan that the loop does not pass
  over (not a header, selected by the id filter, and either untitled or selected by the
  category filter), and the conditions under which a run ends with an error result.
\<close>

definition bucket_sum :: "tally \<Rightarrow> nat" where
  "bucket_sum t = updated t + skipped t + noDesc t + missingPath t"

definition processed :: "run_payload \<Rightarrow> ('p, 'f) sync_env \<Rightarrow> sync_item \<Rightarrow> bool" where
  "processed p env item \<longleftrightarrow>
     \<not> si_isHeader item
     \<and> id_selected (idFilter p) (trim (si_id item))
     \<and> (trim (si_title item) = []
        \<or> category_selected (categoryFilter p)
             (resolvePlanItemCategory (env_title_category env) item))"

definition counted :: "tally \<Rightarrow> tally \<Rightarrow> bool" where
  \<comment> \<open>the buckets and \<open>writeErrors\<close> together grow by at least one\<close>
  "counted t t' \<longleftrightarrow> bucket_sum t + writeErrors t + 1 \<le> bucket_sum t' + writeErrors t'"

definition tally_step :: "tally \<Rightarrow> tally \<Rightarrow> bool" where
  \<comment> \<open>no counter decreases and the four buckets together grow by at most one\<close>
  "tally_step t t' \<longleftrightarrow>
     updated t \<le> updated t' \<and> skipped t \<le> skipped t' \<and> noDesc t \<le> noDesc t'
     \<and> missingPath t \<le> missingPath t' \<and> writeErrors t \<le> writeErrors t'
     \<and> bucket_sum t' \<le> bucket_sum t + 1"

definition reaches_loop ::
  "run_payload \<Rightarrow> ('p, 'f) sync_env \<Rightarrow> sync_plan \<Rightarrow> (string \<times> index_entry) list \<Rightarrow> bool" where
  \<comment> \<open>every step before the mutation loop succeeds\<close>
  "reaches_loop p env plan entries \<longleftrightarrow>
     rp_host p \<noteq> [] \<and> rp_port p \<noteq> 0 \<and> rp_libraryRoot p \<noteq> []
     \<and> (\<exists>next. env_fetch env = Returned next \<and> fetch_ok next \<and> fetch_plan next = Some plan)
     \<and> env_index env = Indexed entries
     \<and> (shouldReopen p env \<longrightarrow> call_ok (env_quit env))"

definition plan_fetch_failed :: "('p, 'f) sync_env \<Rightarrow> bool" where
  "plan_fetch_failed env \<longleftrightarrow>
     (case env_fetch env of
        Threw e \<Rightarrow> True
      | Returned next \<Rightarrow> \<not> fetch_ok next \<or> fetch_plan next = None)"

definition index_failed :: "('p, 'f) sync_env \<Rightarrow> bool" where
  "index_failed env \<longleftrightarrow> (case env_index env of IndexFailed detail \<Rightarrow> True | Indexed entries \<Rightarrow> False)"

definition quit_failed :: "run_payload \<Rightarrow> ('p, 'f) sync_env \<Rightarrow> bool" where
  "quit_failed p env \<longleftrightarrow> shouldReopen p env \<and> \<not> call_ok (env_quit env)"

definition is_error :: "(string + done_result) \<times> event list \<Rightarrow> bool" where
  "is_error r \<longleftrightarrow> (case fst r of Inl e \<Rightarrow> True | Inr d \<Rightarrow> False)"

definition rewrite_event :: "event \<Rightarrow> bool" where
  \<comment> \<open>an event of the mutation loop: a call of the rewrite tool\<close>
  "rewrite_event ev \<longleftrightarrow> ev \<noteq> Quit \<and> ev \<noteq> Launch"

section \<open>Sample runs\<close>

text \<open>
  Concrete inputs for the orchestrator, used to run the model: a payload, a transition
  item, a song item, an item without a library match, a header, and an environment built
  around a plan, the answers of the rewrite tool and the library index. On the sample
  host no timer, stage layout, clear prop or Titles media playlist is found.
\<close>

definition sample_payload :: run_payload where
  "sample_payload =
     \<lparr>rp_host = ''127.0.0.1'', rp_port = 1025, rp_libraryRoot = ''/lib'', rp_reopen = None,
      rp_categories = None, rp_itemIds = None\<rparr>"

definition welcome_item :: sync_item where
  "welcome_item =
     \<lparr>si_isHeader = False, si_title = ''Welcome'', si_id = ''101'', si_notes = None,
      si_description = Some ''Greet the room'', si_category = Some ''Transitions'',
      si_kind = announcement\<rparr>"

definition song_item :: sync_item where
  "song_item =
     \<lparr>si_isHeader = False, si_title = ''Living Hope'', si_id = ''102'',
      si_notes = Some ''Key of C'', si_description = None, si_category = Some ''Song'',
      si_kind = song\<rparr>"

definition unmatched_item :: sync_item where
  "unmatched_item =
     \<lparr>si_isHeader = False, si_title = ''Offering'', si_id = ''103'', si_notes = None,
      si_description = Some ''Baskets'', si_category = Some ''Transitions'',
      si_kind = announcement\<rparr>"

definition header_item :: sync_item where
  "header_item =
     \<lparr>si_isHeader = True, si_title = ''SERVICE'', si_id = ''100'', si_notes = None,
      si_description = None, si_category = Some ''Transitions'', si_kind = announcement\<rparr>"

definition sample_index :: index_result where
  "sample_index =
     Indexed [(''U1'', \<lparr>entry_path = ''/lib/Welcome.pro'', entry_title = Some ''Welcome''\<rparr>),
              (''U2'', \<lparr>entry_path = ''/lib/Living Hope.pro'', entry_title = None\<rparr>)]"

definition sample_env :: "sync_item list \<Rightarrow> (nat \<Rightarrow> item_io) \<Rightarrow> index_result \<Rightarrow> (unit, rat) sync_env" where
  "sample_env plan_items_in io index =
     \<lparr>env_darwin = True,
      env_fetch = Returned \<lparr>fetch_ok = True,
                           fetch_plan = Some \<lparr>sp_title = ''Sunday'', sp_items = plan_items_in\<rparr>,
                           fetch_error = None\<rparr>,
      env_matches = (\<lambda>t. if t = ''Welcome'' then Some ''U1''
                         else if t = ''Living Hope'' then Some ''U2'' else None),
      env_timer = None, env_stage_layout = None, env_index = index,
      env_path_stem = (\<lambda>f. f), env_titles_media = None, env_clear_prop = None,
      env_quit = \<lparr>call_ok = True, call_message = None\<rparr>,
      env_title_category = (\<lambda>item. None), env_sections = (\<lambda>item. [()]),
      env_io = io,
      env_launch = \<lparr>call_ok = True, call_message = None\<rparr>\<rparr>"

definition all_ok :: item_io where
  "all_ok =
     \<lparr>song_result = Returned True, transition_result = Returned True,
      notes_result = Returned True\<rparr>"

definition tools_report_failure :: item_io where
  \<comment> \<open>every call of the rewrite tool returns with a non-zero exit code\<close>
  "tools_report_failure =
     \<lparr>song_result = Returned False, transition_result = Returned False,
      notes_result = Returned False\<rparr>"

definition spawn_fails :: item_io where
  \<comment> \<open>the rewrite tool cannot be spawned: every call rejects\<close>
  "spawn_fails =
     \<lparr>song_result = Threw ''spawn python3 ENOENT'',
      transition_result = Threw ''spawn python3 ENOENT'',
      notes_result = Threw ''spawn python3 ENOENT''\<rparr>"

definition song_spawn_fails :: item_io where
  \<comment> \<open>the song rewrite rejects; the transition rewrite and the notes write return with
      a non-zero exit code\<close>
  "song_spawn_fails =
     \<lparr>song_result = Threw ''spawn python3 ENOENT'', transition_result = Returned False,
      notes_result = Returned False\<rparr>"

text \<open>
  Concrete inputs for the media matching. \<open>exact_numbers\<close> is the arithmetic without
  rounding on the rationals. It is not the arithmetic of the code; the two agree where no
  operation of the code rounds, as in the sample runs, in which every number is an integer
  below \<open>2 ^ 53\<close>. The sample
  clock advances by one millisecond per item. \<open>baptism_media\<close> has no timestamp;
  \<open>welcome_media\<close> is 5 days old when it is scored, \<open>baptism_old_media\<close> 20 days and
  \<open>baptism_new_media\<close> 12 days.
\<close>

definition exact_numbers :: "rat js_number_ops" where
  "exact_numbers =
     \<lparr>js_num = of_int, js_add = (+), js_sub = (-), js_div = (/), js_isFinite = (\<lambda>x. True)\<rparr>"

definition sample_clock :: "nat \<Rightarrow> rat" where
  "sample_clock i = 1700000000000 + of_nat i"

definition baptism_media :: "rat media_item" where
  "baptism_media =
     \<lparr>media_uuid = ''M1'', media_name = ''Baptism'', updatedAt = None,
      media_keywords = [''Baptism'', ''M1''], filePath = None\<rparr>"

definition welcome_media :: "rat media_item" where
  "welcome_media =
     \<lparr>media_uuid = ''M0'', media_name = ''Welcome'', updatedAt = Some 1699568000000,
      media_keywords = [''Welcome''], filePath = None\<rparr>"

definition baptism_old_media :: "rat media_item" where
  "baptism_old_media =
     \<lparr>media_uuid = ''M2'', media_name = ''Baptism Old'', updatedAt = Some 1698272000001,
      media_keywords = [''Baptism''], filePath = None\<rparr>"

definition baptism_new_media :: "rat media_item" where
  "baptism_new_media =
     \<lparr>media_uuid = ''M3'', media_name = ''Baptism New'', updatedAt = Some 1698963200002,
      media_keywords = [''Baptism''], filePath = None\<rparr>"

chapter \<open>Properties\<close>

section \<open>Properties of the lyric segmenter\<close>

lemma mem_dropWhile: "x \<in> set xs \<Longrightarrow> \<not> P x \<Longrightarrow> x \<in> set (dropWhile P xs)"
  by (induction xs) auto

lemma trim_eq_Nil_iff: "trim s = [] \<longleftrightarrow> (\<forall>c\<in>set s. is_space c)"
proof
  assume "trim s = []"
  then have a: "dropWhile is_space (rev (dropWhile is_space s)) = []"
    by (simp add: trim_def)
  show "\<forall>c\<in>set s. is_space c"
  proof (rule ccontr)
    assume "\<not> (\<forall>c\<in>set s. is_space c)"
    then obtain c where c: "c \<in> set s" "\<not> is_space c" by blast
    then have "c \<in> set (dropWhile is_space s)" by (rule mem_dropWhile)
    then have "c \<in> set (rev (dropWhile is_space s))" by simp
    then have "c \<in> set (dropWhile is_space (rev (dropWhile is_space s)))"
      using c(2) by (rule mem_dropWhile)
    then have "c \<in> set []" by (simp only: a)
    then show False by simp
  qed
next
  assume "\<forall>c\<in>set s. is_space c"
  then have "dropWhile is_space s = []" by simp
  then show "trim s = []" by (simp add: trim_def del: dropWhile_eq_Nil_conv)
qed

lemma trim_not_blank: "trim s \<noteq> [] \<Longrightarrow> \<not> blank (trim s)"
proof -
  assume "trim s \<noteq> []"
  then obtain c where c: "c \<in> set s" "\<not> is_space c" using trim_eq_Nil_iff by blast
  then have "c \<in> set (dropWhile is_space s)" by (rule mem_dropWhile)
  then have "c \<in> set (rev (dropWhile is_space s))" by simp
  then have "c \<in> set (dropWhile is_space (rev (dropWhile is_space s)))"
    using c(2) by (rule mem_dropWhile)
  then have "c \<in> set (trim s)" by (simp add: trim_def)
  with c(2) show ?thesis unfolding blank_def using trim_eq_Nil_iff by blast
qed

lemma flush_inv: "slide_inv st \<Longrightarrow> slide_inv (flush st)"
  by (auto simp: slide_inv_def flush_def Suc_le_eq)

lemma flush_current: "current (flush st) = []"
  by (simp add: flush_def)

lemma push_part_inv: "slide_inv st \<Longrightarrow> slide_inv (push_part st part)"
  using trim_not_blank [of part]
  by (auto simp: slide_inv_def push_part_def flush_def Let_def less_Suc_eq numeral_2_eq_2)

lemma foldl_push_part_inv: "slide_inv st \<Longrightarrow> slide_inv (foldl push_part st parts)"
  by (induction parts arbitrary: st) (auto simp: push_part_inv)

lemma push_line_inv: "slide_inv st \<Longrightarrow> slide_inv (push_line st raw)"
  by (simp add: push_line_def Let_def flush_inv foldl_push_part_inv)

lemma foldl_push_line_inv: "slide_inv st \<Longrightarrow> slide_inv (foldl push_line st ls)"
  by (induction ls arbitrary: st) (auto simp: push_line_inv)

lemma init_inv: "slide_inv \<lparr>expanded = [], slides = [], current = []\<rparr>"
  by (simp add: slide_inv_def)

lemma flush_expanded: "expanded (flush st) = expanded st"
  by (simp add: flush_def)

lemma push_part_expanded:
  "expanded (push_part st part) = expanded st @ (if trim part = [] then [] else [trim part])"
  by (simp add: push_part_def Let_def flush_def)

lemma foldl_push_part_expanded:
  "expanded (foldl push_part st parts)
     = expanded st @ filter (\<lambda>s. s \<noteq> []) (map trim parts)"
  by (induction parts arbitrary: st) (simp_all add: push_part_expanded)

lemma push_line_expanded:
  "expanded (push_line st raw)
     = expanded st @ (if blank raw then [] else wrapped_segments raw)"
  by (simp add: push_line_def Let_def flush_expanded foldl_push_part_expanded blank_def
        wrapped_segments_def)

lemma foldl_push_line_expanded:
  "expanded (foldl push_line st ls)
     = expanded st @ concat (map wrapped_segments (filter (\<lambda>l. \<not> blank l) ls))"
  by (induction ls arbitrary: st) (simp_all add: push_line_expanded)

lemma buildLyricSlides_lines:
  "fst (buildLyricSlides ls) = concat (map wrapped_segments (filter (\<lambda>l. \<not> blank l) ls))"
  by (simp add: buildLyricSlides_def Let_def flush_expanded foldl_push_line_expanded)

text \<open>
  C7. For every list of source lines handed to \<open>buildLyricSlides\<close> (hence for every lyrics
  block), the emitted line stream \<open>lyricLines\<close> consists of the wrapped segments of the
  non-blank source lines in source order, the slides concatenated in order are exactly
  that stream, every slide holds one or two lines, and every line of a slide is non-empty
  and not blank.
\<close>

theorem buildLyricSlides_partition:
  "case buildLyricSlides lines of
     (ls, sl) \<Rightarrow>
       ls = concat (map wrapped_segments (filter (\<lambda>l. \<not> blank l) lines))
       \<and> concat sl = ls
       \<and> (\<forall>s\<in>set sl. 1 \<le> length s \<and> length s \<le> 2 \<and> (\<forall>l\<in>set s. l \<noteq> [] \<and> \<not> blank l))"
proof -
  let ?st = "flush (foldl push_line \<lparr>expanded = [], slides = [], current = []\<rparr> lines)"
  have b: "buildLyricSlides lines = (expanded ?st, slides ?st)"
    by (simp add: buildLyricSlides_def Let_def)
  have inv: "slide_inv ?st"
    by (intro flush_inv foldl_push_line_inv init_inv)
  have cur: "current ?st = []" by (rule flush_current)
  from inv cur have eq: "concat (slides ?st) = expanded ?st"
    by (simp add: slide_inv_def)
  have nb: "\<forall>l\<in>set (expanded ?st). l \<noteq> [] \<and> \<not> blank l"
    using inv by (auto simp: slide_inv_def blank_def trim_def)
  have sub: "\<forall>s\<in>set (slides ?st). \<forall>l\<in>set s. l \<in> set (expanded ?st)"
    using eq by (metis UN_I set_concat)
  have len: "\<forall>s\<in>set (slides ?st). 1 \<le> length s \<and> length s \<le> 2"
    using inv by (simp add: slide_inv_def)
  have st: "expanded ?st = concat (map wrapped_segments (filter (\<lambda>l. \<not> blank l) lines))"
    using buildLyricSlides_lines [of lines] by (simp only: b fst_conv)
  have "\<forall>s\<in>set (slides ?st). 1 \<le> length s \<and> length s \<le> 2
          \<and> (\<forall>l\<in>set s. l \<noteq> [] \<and> \<not> blank l)"
    using len sub nb by blast
  with st eq show ?thesis
    by (simp only: b prod.case)
qed

theorem buildLyricSlides_partition_witness:
  "buildLyricSlides [''Amazing grace'', [], ''How sweet'', ''the sound'', ''That saved'']
     = ([''Amazing grace'', ''How sweet'', ''the sound'', ''That saved''],
        [[''Amazing grace''], [''How sweet'', ''the sound''], [''That saved'']])
   \<and> concat [[''Amazing grace''], [''How sweet'', ''the sound''], [''That saved'']]
     = [''Amazing grace'', ''How sweet'', ''the sound'', ''That saved'']"
  using buildLyricSlides_partition
    [of "[''Amazing grace'', [], ''How sweet'', ''the sound'', ''That saved'']"]
  by code_simp

text \<open>
  C3. A blank line between two lyric lines does not reach the slide builder:
  \<open>normalizeLyricBlock\<close> drops every blank line before \<open>enrichSectionLyrics\<close> splits the
  block again, so the block \<open>Line one / (blank) / Line two\<close> yields one slide holding both
  lines, although \<open>buildLyricSlides\<close> itself flushes at a blank line.
\<close>

theorem segmenter_blank_line_same_slide:
  "lyricSlides (coerceSection ''sec-0'' ''Verse 1''
      (''Line one'' @ [CHR 0x0A, CHR 0x0A] @ ''Line two''))
     = Some [[''Line one'', ''Line two'']]"
  by code_simp

lemma buildLyricSlides_flushes_at_blank:
  "buildLyricSlides [''Line one'', [], ''Line two'']
     = ([''Line one'', ''Line two''], [[''Line one''], [''Line two'']])"
  by code_simp

section \<open>Properties of the title normalizer\<close>

lemma char_of_alnum: "is_alnum_code n \<Longrightarrow> of_char (char_of n :: char) = n"
proof -
  assume "is_alnum_code n"
  then have "n < 256" by (auto simp: is_alnum_code_def)
  then show ?thesis by simp
qed

lemma char_of_alnum_not_space: "is_alnum_code n \<Longrightarrow> char_of n \<noteq> CHR '' ''"
proof
  assume a: "is_alnum_code n" and e: "char_of n = CHR '' ''"
  from a have h: "of_char (char_of n :: char) = n" by (rule char_of_alnum)
  from e have "(of_char (char_of n :: char) :: nat) = of_char CHR '' ''" by (simp only:)
  with h have "n = of_char CHR '' ''" by (simp only:)
  then have "n = 32" by simp
  with a show False by (simp add: is_alnum_code_def)
qed

lemma canon_char_of: "is_alnum_code n \<Longrightarrow> is_canon_char (char_of n)"
proof -
  assume a: "is_alnum_code n"
  then have "of_char (char_of n :: char) = n" by (rule char_of_alnum)
  with a have "is_alnum_code (of_char (char_of n :: char))" by (simp only:)
  then show ?thesis unfolding is_canon_char_def by (rule disjI1)
qed

lemma space_canon: "is_canon_char CHR '' ''"
  by (simp add: is_canon_char_def)

lemma replace_non_alnum_chars: "\<forall>c\<in>set (replace_non_alnum ns). is_canon_char c"
proof (induction ns rule: replace_non_alnum.induct)
  case 1
  show ?case by simp
next
  case (2 n ns)
  show ?case
  proof (cases "is_alnum_code n")
    case True
    with 2(1) have "\<forall>c\<in>set (replace_non_alnum ns). is_canon_char c" by blast
    moreover have "replace_non_alnum (n # ns) = char_of n # replace_non_alnum ns"
      using True by simp
    ultimately show ?thesis using canon_char_of [OF True] by simp
  next
    case False
    let ?d = "dropWhile (\<lambda>k. \<not> is_alnum_code k) ns"
    from False 2(2) have "\<forall>c\<in>set (replace_non_alnum ?d). is_canon_char c" by blast
    moreover have "replace_non_alnum (n # ns) = CHR '' '' # replace_non_alnum ?d"
      using False by simp
    ultimately show ?thesis using space_canon by simp
  qed
qed

lemma replace_non_alnum_hd:
  "ns \<noteq> [] \<Longrightarrow> is_alnum_code (hd ns) \<Longrightarrow> hd (replace_non_alnum ns) \<noteq> CHR '' '' \<and> replace_non_alnum ns \<noteq> []"
  by (cases ns) (auto simp: char_of_alnum_not_space)

lemma no_double_space_Cons:
  "no_double_space (a # r) \<longleftrightarrow> (r = [] \<or> \<not> (a = CHR '' '' \<and> hd r = CHR '' '')) \<and> no_double_space r"
  by (cases r) auto

lemma replace_non_alnum_nds: "no_double_space (replace_non_alnum ns)"
proof (induction ns rule: replace_non_alnum.induct)
  case 1
  show ?case by simp
next
  case (2 n ns)
  show ?case
  proof (cases "is_alnum_code n")
    case True
    with 2 show ?thesis
      by (simp add: no_double_space_Cons char_of_alnum_not_space)
  next
    case False
    let ?d = "dropWhile (\<lambda>k. \<not> is_alnum_code k) ns"
    have "?d = [] \<or> is_alnum_code (hd ?d)"
      using hd_dropWhile [of "\<lambda>k. \<not> is_alnum_code k" ns] by blast
    then have h: "replace_non_alnum ?d = [] \<or> hd (replace_non_alnum ?d) \<noteq> CHR '' ''"
      using replace_non_alnum_hd [of ?d] by fastforce
    have ih: "no_double_space (replace_non_alnum ?d)"
      using 2(2) False by blast
    have "replace_non_alnum (n # ns) = CHR '' '' # replace_non_alnum ?d"
      using False by simp
    with h ih show ?thesis
      by (simp only: no_double_space_Cons) blast
  qed
qed

lemma nds_append_left: "no_double_space (xs @ ys) \<Longrightarrow> no_double_space xs"
  by (induction xs rule: no_double_space.induct) auto

lemma nds_append_right: "no_double_space (xs @ ys) \<Longrightarrow> no_double_space ys"
  by (induction xs) (auto simp: no_double_space_Cons)

lemma trim_decomp: "\<exists>pre post. s = pre @ trim s @ post"
proof -
  let ?t = "dropWhile is_space s"
  have "s = takeWhile is_space s @ ?t" by simp
  moreover have "rev (rev ?t) = rev (takeWhile is_space (rev ?t) @ dropWhile is_space (rev ?t))"
    by (simp only: takeWhile_dropWhile_id)
  then have "?t = trim s @ rev (takeWhile is_space (rev ?t))"
    by (simp only: rev_rev_ident rev_append trim_def)
  ultimately have "s = takeWhile is_space s @ trim s @ rev (takeWhile is_space (rev ?t))"
    by simp
  then show ?thesis by blast
qed

lemma trim_nds: "no_double_space s \<Longrightarrow> no_double_space (trim s)"
proof -
  assume a: "no_double_space s"
  obtain pre post where "s = pre @ trim s @ post" using trim_decomp by blast
  with a have "no_double_space (pre @ trim s @ post)" by simp
  then have "no_double_space (trim s @ post)" by (rule nds_append_right)
  then show ?thesis by (rule nds_append_left)
qed

lemma set_trim_subset: "set (trim s) \<subseteq> set s"
proof -
  obtain pre post where "s = pre @ trim s @ post" using trim_decomp by blast
  then have "set s = set pre \<union> set (trim s) \<union> set post"
    by (metis set_append sup_assoc)
  then show ?thesis by blast
qed

lemma dropWhile_id: "xs = [] \<or> \<not> P (hd xs) \<Longrightarrow> dropWhile P xs = xs"
  by (cases xs) auto

lemma last_dropWhile: "dropWhile P xs \<noteq> [] \<Longrightarrow> last (dropWhile P xs) = last xs"
  by (induction xs) (auto split: if_splits)

lemma trim_idem: "trim (trim s) = trim s"
proof -
  let ?t = "dropWhile is_space s"
  let ?u = "dropWhile is_space (rev ?t)"
  have ts: "trim s = rev ?u" by (simp add: trim_def)
  have "dropWhile is_space (rev ?u) = rev ?u"
  proof (rule dropWhile_id, cases "?u = []")
    case True
    then show "rev ?u = [] \<or> \<not> is_space (hd (rev ?u))" by simp
  next
    case False
    then have "last ?u = last (rev ?t)" by (rule last_dropWhile)
    moreover have tne: "?t \<noteq> []"
    proof
      assume "?t = []"
      then have "?u = []" by (simp only: rev.simps dropWhile.simps)
      with False show False by simp
    qed
    ultimately have "last ?u = hd ?t" by (simp add: last_rev)
    moreover have "\<not> is_space (hd ?t)" using tne by (rule hd_dropWhile)
    ultimately show "rev ?u = [] \<or> \<not> is_space (hd (rev ?u))"
      using False by (simp add: hd_rev)
  qed
  then have "trim (rev ?u) = rev (dropWhile is_space ?u)"
    by (simp add: trim_def)
  also have "\<dots> = rev ?u" by (simp add: dropWhile_idem)
  finally show ?thesis by (simp add: ts)
qed

lemma strip_delimited_id: "opn \<notin> set s \<Longrightarrow> strip_delimited opn cls s = s"
  by (induction s) auto

lemma canon_char_code: "is_canon_char c \<Longrightarrow> (of_char c :: nat) = 32 \<or> is_alnum_code (of_char c)"
  by (auto simp: is_canon_char_def)

lemma canon_char_range:
  "is_canon_char c \<Longrightarrow> (of_char c :: nat) < 160 \<and> \<not> (65 \<le> (of_char c :: nat) \<and> (of_char c :: nat) \<le> 90)"
  using canon_char_code [of c] by (auto simp: is_alnum_code_def)

lemma lower_canon: "is_canon_char c \<Longrightarrow> lower_char c = c"
proof -
  assume "is_canon_char c"
  then have "(of_char c :: nat) < 160" "\<not> (65 \<le> (of_char c :: nat) \<and> (of_char c :: nat) \<le> 90)"
    using canon_char_range by blast+
  then show ?thesis by (auto simp: lower_char_def Let_def)
qed

lemma nfkd_char_canon: "is_canon_char c \<Longrightarrow> nfkd_char c = [of_char c]"
proof -
  assume "is_canon_char c"
  then have "(of_char c :: nat) < 160" using canon_char_range by blast
  then show ?thesis by (simp add: nfkd_char_def Let_def)
qed

lemma toLowerCase_canon: "\<forall>c\<in>set r. is_canon_char c \<Longrightarrow> toLowerCase r = r"
  by (induction r) (auto simp: toLowerCase_def lower_canon)

lemma nfkd_canon: "\<forall>c\<in>set r. is_canon_char c \<Longrightarrow> nfkd r = map of_char r"
  by (induction r) (auto simp: nfkd_def nfkd_char_canon)

lemma replace_non_alnum_canon:
  "\<forall>c\<in>set r. is_canon_char c \<Longrightarrow> no_double_space r \<Longrightarrow> replace_non_alnum (map of_char r) = r"
proof (induction r)
  case Nil
  show ?case by simp
next
  case (Cons c r)
  then have ih: "replace_non_alnum (map of_char r) = r"
    by (simp add: no_double_space_Cons)
  show ?case
  proof (cases "c = CHR '' ''")
    case True
    then have na: "\<not> is_alnum_code (of_char c)" by (simp add: is_alnum_code_def)
    have "r = [] \<or> hd r \<noteq> CHR '' ''"
      using Cons.prems(2) True by (simp add: no_double_space_Cons)
    then have "r = [] \<or> is_alnum_code (of_char (hd r))"
      using Cons.prems(1) by (cases r) (auto simp: is_canon_char_def)
    then have "dropWhile (\<lambda>k. \<not> is_alnum_code k) (map of_char r) = map of_char r"
      by (cases r) auto
    with na ih True show ?thesis by simp
  next
    case False
    with Cons.prems(1) have "is_alnum_code (of_char c)" by (simp add: is_canon_char_def)
    with ih show ?thesis by simp
  qed
qed


lemma normalizeTitle_canonical: "canonical_title (normalizeTitle x)"
proof -
  obtain ns where n: "normalizeTitle x = trim (replace_non_alnum ns)"
    by (simp add: normalizeTitle_def Let_def)
  have "\<forall>c\<in>set (trim (replace_non_alnum ns)). is_canon_char c"
    using replace_non_alnum_chars [of ns] set_trim_subset [of "replace_non_alnum ns"] by blast
  moreover have "no_double_space (trim (replace_non_alnum ns))"
    by (rule trim_nds) (rule replace_non_alnum_nds)
  ultimately show ?thesis
    unfolding canonical_title_def n by (simp add: trim_idem)
qed

lemma closing_worship_fixed:
  "trim (replace_non_alnum (nfkd (toLowerCase ''closing worship''))) = ''closing worship''"
  by code_simp

lemma normalizeTitle_on_canonical:
  assumes "canonical_title r"
  shows "normalizeTitle r = (if alias_search False r then ''closing worship'' else r)"
proof -
  from assms have ch: "\<forall>c\<in>set r. is_canon_char c" and nds: "no_double_space r"
    and tr: "trim r = r" by (simp_all add: canonical_title_def)
  have "\<not> is_canon_char CHR ''(''" "\<not> is_canon_char CHR ''[''"
    by (simp_all add: is_canon_char_def is_alnum_code_def)
  with ch have "CHR ''('' \<notin> set r" "CHR ''['' \<notin> set r" by blast+
  then have st: "strip_delimited CHR ''['' CHR '']'' (strip_delimited CHR ''('' CHR '')'' r) = r"
    by (simp add: strip_delimited_id)
  have low: "toLowerCase r = r" using ch by (rule toLowerCase_canon)
  show ?thesis
  proof (cases "alias_search False r")
    case True
    then have "mapAlias r = ''closing worship''" by (simp add: mapAlias_def low)
    then have "normalizeTitle r = trim (replace_non_alnum (nfkd (toLowerCase ''closing worship'')))"
      by (simp only: normalizeTitle_def Let_def st)
    with True show ?thesis by (simp only: closing_worship_fixed if_True)
  next
    case False
    then have "mapAlias r = r" by (simp add: mapAlias_def low)
    then have "normalizeTitle r = trim (replace_non_alnum (nfkd (toLowerCase r)))"
      by (simp only: normalizeTitle_def Let_def st)
    also have "\<dots> = trim (replace_non_alnum (map of_char r))"
      by (simp only: low nfkd_canon [OF ch])
    also have "\<dots> = r"
      by (simp only: replace_non_alnum_canon [OF ch nds] tr)
    finally show ?thesis using False by simp
  qed
qed

lemma closing_worship_normal: "normalizeTitle ''closing worship'' = ''closing worship''"
  by code_simp

text \<open>
  C8 (amended). Normalizing a normalized title gives the same title again unless the
  normalized title matches the alias pattern \<open>\bclosing\s+worship(\s+song)?\b\<close>, in which
  case it gives \<open>closing worship\<close>; from the second application on the normalizer is
  idempotent.
\<close>

theorem normalizeTitle_twice:
  "normalizeTitle (normalizeTitle x)
     = (if alias_search False (normalizeTitle x) then ''closing worship'' else normalizeTitle x)
   \<and> normalizeTitle (normalizeTitle (normalizeTitle x)) = normalizeTitle (normalizeTitle x)
   \<and> (alias_search False
         (toLowerCase (strip_delimited CHR ''['' CHR '']'' (strip_delimited CHR ''('' CHR '')'' x)))
        \<longrightarrow> normalizeTitle x = ''closing worship''
            \<and> normalizeTitle (normalizeTitle x) = normalizeTitle x)"
proof -
  let ?r = "normalizeTitle x"
  have c: "canonical_title ?r" by (rule normalizeTitle_canonical)
  have one: "normalizeTitle ?r = (if alias_search False ?r then ''closing worship'' else ?r)"
    using c by (rule normalizeTitle_on_canonical)
  have two: "normalizeTitle (normalizeTitle ?r) = normalizeTitle ?r"
  proof (cases "alias_search False ?r")
    case True
    with one have "normalizeTitle ?r = ''closing worship''" by simp
    then show ?thesis by (simp only: closing_worship_normal)
  next
    case False
    with one have "normalizeTitle ?r = ?r" by simp
    then show ?thesis by (simp only:)
  qed
  have three: "?r = ''closing worship'' \<and> normalizeTitle ?r = ?r"
    if "alias_search False
         (toLowerCase (strip_delimited CHR ''['' CHR '']'' (strip_delimited CHR ''('' CHR '')'' x)))"
  proof -
    from that have "?r = trim (replace_non_alnum (nfkd (toLowerCase ''closing worship'')))"
      by (simp add: normalizeTitle_def mapAlias_def Let_def)
    then have "?r = ''closing worship''" by (simp only: closing_worship_fixed)
    then show ?thesis by (simp only: closing_worship_normal)
  qed
  from one two three show ?thesis by blast
qed

theorem normalizeTitle_twice_witness:
  "alias_search False (normalizeTitle ''a closing-worship'')
   \<and> normalizeTitle (normalizeTitle ''a closing-worship'') = ''closing worship''
   \<and> alias_search False
        (toLowerCase (strip_delimited CHR ''['' CHR '']''
           (strip_delimited CHR ''('' CHR '')'' ''Closing Worship (Song)'')))
   \<and> normalizeTitle ''Closing Worship (Song)'' = ''closing worship''
   \<and> normalizeTitle (normalizeTitle ''Closing Worship (Song)'')
       = normalizeTitle ''Closing Worship (Song)''"
proof -
  have a: "alias_search False (normalizeTitle ''a closing-worship'')" by code_simp
  have b: "alias_search False
        (toLowerCase (strip_delimited CHR ''['' CHR '']''
           (strip_delimited CHR ''('' CHR '')'' ''Closing Worship (Song)'')))" by code_simp
  from normalizeTitle_twice [of "''a closing-worship''"] a
    normalizeTitle_twice [of "''Closing Worship (Song)''"] b
  show ?thesis by (simp add: closing_worship_normal)
qed

text \<open>
  C8 as stated fails: in \<open>a closing-worship\<close> the hyphen keeps the alias from matching the
  raw title, the normalized title \<open>a closing worship\<close> matches it, and the second
  application returns \<open>closing worship\<close>.
\<close>

theorem normalizeTitle_not_idempotent:
  "normalizeTitle ''a closing-worship'' = ''a closing worship''
   \<and> normalizeTitle (normalizeTitle ''a closing-worship'') = ''closing worship''
   \<and> normalizeTitle (normalizeTitle ''a closing-worship'') \<noteq> normalizeTitle ''a closing-worship''"
  by code_simp

section \<open>Properties of the playlist synchronization\<close>

lemma refs_equal_positional:
  "refs_equal cur des \<longleftrightarrow> length cur = length des \<and> (\<forall>i<length cur. cur ! i = des ! i)"
  by (auto simp: refs_equal_def list_all_iff)

lemma refs_equal_iff: "refs_equal cur des \<longleftrightarrow> cur = des"
  unfolding refs_equal_positional by (rule list_eq_iff_nth_eq [symmetric])

lemma not_header_iff: "item_type a \<noteq> header \<longleftrightarrow> item_type a = presentation"
  by (cases "item_type a") simp_all

text \<open>
  C6 (amended). The differ sends no replacement exactly when the current and the desired
  reference sequences have the same length and the same key at every index; otherwise it
  sends one replacement carrying the whole desired list. The result reports
  \<open>changed = true\<close> exactly when a replacement was sent and the host answered it with a
  2xx status, and \<open>ok = false, changed = false\<close> when the replacement was refused.
\<close>

theorem playlist_diff_decision:
  "case diff_and_replace was_created pid td tr cur desired put of
     (r, reqs) \<Rightarrow>
       ((reqs = []) = (length cur = length (desiredRefs desired)
                      \<and> (\<forall>i<length cur. cur ! i = desiredRefs desired ! i)))
       \<and> (reqs = [] \<or> reqs = [ReplacePlaylist pid desired])
       \<and> changed r = (reqs \<noteq> [] \<and> status_2xx put)
       \<and> ok r = (reqs = [] \<or> status_2xx put)"
  by (simp add: diff_and_replace_def Let_def refs_equal_positional)

text \<open>The differ is reflexive, also on the empty sequence.\<close>

lemma playlist_diff_reflexive:
  "diff_and_replace was_created pid td tr (desiredRefs desired) desired put
     = (\<lparr>ok = True, changed = False, created = Some was_created, playlistId = Some pid,
         totalDesired = td, totalResolved = tr, error = None\<rparr>, [])"
  by (simp add: diff_and_replace_def Let_def refs_equal_iff)

theorem playlist_diff_decision_witness:
  "diff_and_replace False ''PL'' 3 3 [''p:B'', ''h:intro'', ''p:A'']
       [DesiredPresentation ''A'', DesiredHeader ''Intro'' 1, DesiredPresentation ''B''] 200
     = (\<lparr>ok = True, changed = True, created = Some False, playlistId = Some ''PL'',
         totalDesired = 3, totalResolved = 3, error = None\<rparr>,
        [ReplacePlaylist ''PL''
           [DesiredPresentation ''A'', DesiredHeader ''Intro'' 1, DesiredPresentation ''B'']])
   \<and> length [''p:B'', ''h:intro'', ''p:A'']
       = length (desiredRefs
           [DesiredPresentation ''A'', DesiredHeader ''Intro'' 1, DesiredPresentation ''B''])"
proof -
  have e: "diff_and_replace False ''PL'' 3 3 [''p:B'', ''h:intro'', ''p:A'']
       [DesiredPresentation ''A'', DesiredHeader ''Intro'' 1, DesiredPresentation ''B''] 200
     = (\<lparr>ok = True, changed = True, created = Some False, playlistId = Some ''PL'',
         totalDesired = 3, totalResolved = 3, error = None\<rparr>,
        [ReplacePlaylist ''PL''
           [DesiredPresentation ''A'', DesiredHeader ''Intro'' 1, DesiredPresentation ''B'']])"
    by code_simp
  from playlist_diff_decision [where was_created = False and pid = "''PL''" and td = 3
    and tr = 3 and cur = "[''p:B'', ''h:intro'', ''p:A'']" and put = 200
    and desired = "[DesiredPresentation ''A'', DesiredHeader ''Intro'' 1, DesiredPresentation ''B'']"]
    e
  show ?thesis by (simp add: desiredRefs_def)
qed

text \<open>
  C6 as stated fails: the current sequence \<open>[p:B, h:intro, p:A]\<close> is a reordering of the
  desired \<open>[p:A, h:intro, p:B]\<close>, the replacement is sent, the host answers 500, and the
  result reports \<open>changed = false\<close>.
\<close>

theorem playlist_diff_put_failure:
  "desiredRefs [DesiredPresentation ''A'', DesiredHeader ''Intro'' 1, DesiredPresentation ''B'']
     = [''p:A'', ''h:intro'', ''p:B'']
   \<and> diff_and_replace False ''PL'' 3 3 [''p:B'', ''h:intro'', ''p:A'']
       [DesiredPresentation ''A'', DesiredHeader ''Intro'' 1, DesiredPresentation ''B''] 500
     = (\<lparr>ok = False, changed = False, created = Some False, playlistId = Some ''PL'',
         totalDesired = 3, totalResolved = 3, error = Some (PutStatus 500)\<rparr>,
        [ReplacePlaylist ''PL''
           [DesiredPresentation ''A'', DesiredHeader ''Intro'' 1, DesiredPresentation ''B'']])"
  by code_simp

lemma build_desired_length:
  "length (build_desired lib i src) + length (filter (unresolved lib) src) = length src"
  by (induction src arbitrary: i) (auto simp: unresolved_def not_header_iff split: list.splits)

lemma build_desired_headers:
  "header_names (build_desired lib i src)
     = map item_title (filter (\<lambda>it. item_type it = header) src)"
  by (induction src arbitrary: i) (auto split: list.splits)

lemma diff_and_replace_totals:
  "diff_and_replace c pid td tr cur desired put = (r, reqs)
     \<Longrightarrow> totalDesired r = td \<and> totalResolved r = tr
         \<and> (changed r \<longrightarrow> reqs = [ReplacePlaylist pid desired])"
  by (auto simp: diff_and_replace_def Let_def split: if_splits)

text \<open>
  The replacement payload holds every header of the request and the presentations whose
  normalized title is in the library index; each unresolved presentation is left out
  without an error. Every successful result reports the length of the request as
  \<open>totalDesired\<close> and the length of the payload as \<open>totalResolved\<close>, the difference
  being the number of unresolved presentations, and a result with \<open>changed = true\<close> has
  sent that shorter payload.
\<close>

lemma syncPlaylist_totals_when_ok:
  "let src = desiredSource payload; desired = build_desired (library_names w) 0 src
   in length desired + length (filter (unresolved (library_names w)) src) = length src
      \<and> header_names desired = map item_title (filter (\<lambda>it. item_type it = header) src)
      \<and> (\<forall>r reqs. syncPlaylist payload w = (r, reqs) \<and> ok r \<longrightarrow>
            totalDesired r = length src \<and> totalResolved r = length desired
            \<and> totalResolved r \<le> totalDesired r
            \<and> (changed r \<longrightarrow> (\<exists>pid. last reqs = ReplacePlaylist pid desired)))"
proof -
  let ?src = "desiredSource payload"
  let ?d = "build_desired (library_names w) 0 ?src"
  have len: "length ?d + length (filter (unresolved (library_names w)) ?src) = length ?src"
    by (rule build_desired_length)
  have hd: "header_names ?d = map item_title (filter (\<lambda>it. item_type it = header) ?src)"
    by (rule build_desired_headers)
  have run: "totalDesired r = length ?src \<and> totalResolved r = length ?d
             \<and> (changed r \<longrightarrow> (\<exists>pid. last reqs = ReplacePlaylist pid ?d))"
    if "syncPlaylist payload w = (r, reqs)" "ok r" for r reqs
    using that
    by (auto simp: syncPlaylist_def Let_def split: if_splits option.splits prod.splits
             dest!: diff_and_replace_totals)
  from len have "length ?d \<le> length ?src" by simp
  with len hd run show ?thesis by (simp add: Let_def)
qed

lemma syncPlaylist_writes_fewer_items:
  "syncPlaylist
     \<lparr>host = ''127.0.0.1'', port = 1025, playlist_name = ''Sunday Service'', titles = None,
      items = Some [\<lparr>item_type = header, item_title = ''Intro''\<rparr>,
                    \<lparr>item_type = presentation, item_title = ''Living Hope''\<rparr>,
                    \<lparr>item_type = presentation, item_title = ''Unknown Song''\<rparr>]\<rparr>
     \<lparr>library_names = [(''Living Hope (Live)'', ''U1'')],
      playlists = [(''Sunday Service'', ''PL'')], create_status = 0, create_id = None,
      current_items = [], put_status = 200\<rparr>
   = (\<lparr>ok = True, changed = True, created = Some False, playlistId = Some ''PL'',
       totalDesired = 3, totalResolved = 2, error = None\<rparr>,
      [ReplacePlaylist ''PL'' [DesiredHeader ''Intro'' 0, DesiredPresentation ''U1'']])"
  by code_simp

text \<open>
  C10. The claim has \<open>totalResolved \<le> totalDesired\<close> for every requested item list. The
  return for a playlist that is neither found nor created reports \<open>titles.length\<close> as
  \<open>totalDesired\<close>, where every other return reports the length of the request. For a
  request given as \<open>items\<close>, here one header, with no \<open>titles\<close>, on a host that has no such
  playlist and answers the creation with status 500, the request has one item, the payload
  built for it has one item, and the result reports \<open>totalDesired = 0\<close> and
  \<open>totalResolved = 1\<close>.
\<close>

theorem syncPlaylist_no_playlist_totals:
  "desiredSource
     \<lparr>host = ''127.0.0.1'', port = 1025, playlist_name = ''Sunday Service'', titles = None,
      items = Some [\<lparr>item_type = header, item_title = ''Intro''\<rparr>]\<rparr>
     = [\<lparr>item_type = header, item_title = ''Intro''\<rparr>]
   \<and> build_desired [] 0 [\<lparr>item_type = header, item_title = ''Intro''\<rparr>]
     = [DesiredHeader ''Intro'' 0]
   \<and> fst (syncPlaylist
     \<lparr>host = ''127.0.0.1'', port = 1025, playlist_name = ''Sunday Service'', titles = None,
      items = Some [\<lparr>item_type = header, item_title = ''Intro''\<rparr>]\<rparr>
     \<lparr>library_names = [], playlists = [], create_status = 500, create_id = None,
      current_items = [], put_status = 0\<rparr>)
   = \<lparr>ok = False, changed = False, created = None, playlistId = None,
      totalDesired = 0, totalResolved = 1, error = Some NoPlaylist\<rparr>"
  by code_simp

section \<open>Properties of the plan ingestion\<close>

lemma findIndex_Some:
  "findIndex p xs = Some i \<Longrightarrow> i < length xs \<and> p (xs ! i) \<and> (\<forall>j<i. \<not> p (xs ! j))"
proof (induction xs arbitrary: i)
  case Nil
  then show ?case by simp
next
  case (Cons x xs)
  show ?case
  proof (cases "p x")
    case True
    with Cons.prems show ?thesis by simp
  next
    case False
    with Cons.prems obtain k where k: "findIndex p xs = Some k" "i = Suc k" by auto
    from Cons.IH [OF k(1)] False k(2) show ?thesis
      by (auto simp: nth_Cons split: nat.splits)
  qed
qed

lemma findIndex_None: "findIndex p xs = None \<longleftrightarrow> (\<forall>x\<in>set xs. \<not> p x)"
  by (induction xs) auto

lemma rebuild_ids: "map item_id (rebuild derive k ns) = map raw_id ns"
  by (induction ns arbitrary: k) auto

lemma rebuild_length: "length (rebuild derive k ns) = length ns"
  by (induction ns arbitrary: k) auto

lemma rebuild_from: "list_all2 (item_from derive) ns (rebuild derive k ns)"
  by (induction ns arbitrary: k) (auto simp: item_from_def)

lemma first_pass_ids: "map item_id (first_pass derive k ns) = map raw_id ns"
  by (induction ns arbitrary: k) auto

lemma first_pass_from: "list_all2 (item_from derive) ns (first_pass derive k ns)"
  by (induction ns arbitrary: k) (auto simp: item_from_def)

text \<open>
  C9. When the fetched node list holds a header whose normalized title starts with the
  word \<open>service\<close>, the returned items are built, in source order, from the first such
  header and every node after it, and from no node before it; when there is none, the
  returned items are those of the first pass over the whole list.
\<close>

theorem plan_items_slice:
  "case resp_data resp of
     None \<Rightarrow> plan_items derive resp = []
   | Some d \<Rightarrow>
       (case findIndex isServiceHeader d of
          Some i \<Rightarrow>
            i < length d \<and> isServiceHeader (d ! i) \<and> (\<forall>j<i. \<not> isServiceHeader (d ! j))
            \<and> map item_id (plan_items derive resp) = map raw_id (drop i d)
            \<and> list_all2 (item_from derive) (drop i d) (plan_items derive resp)
            \<and> length (plan_items derive resp) = length d - i
        | None \<Rightarrow>
            (\<forall>n\<in>set d. \<not> isServiceHeader n)
            \<and> plan_items derive resp
                = (if status_2xx (resp_status resp) then first_pass derive 0 d else [])
            \<and> (status_2xx (resp_status resp) \<longrightarrow>
                 map item_id (plan_items derive resp) = map raw_id d
                 \<and> list_all2 (item_from derive) d (plan_items derive resp)))"
proof (cases "resp_data resp")
  case None
  then show ?thesis by (simp add: plan_items_def)
next
  case (Some d)
  show ?thesis
  proof (cases "findIndex isServiceHeader d")
    case None
    then have "\<forall>n\<in>set d. \<not> isServiceHeader n" by (simp only: findIndex_None)
    with Some None show ?thesis
      by (simp add: plan_items_def first_pass_ids first_pass_from)
  next
    case (Some i)
    note fi = findIndex_Some [OF Some]
    have "plan_items derive resp = rebuild derive 0 (drop i d)"
      using \<open>resp_data resp = Some d\<close> Some by (simp add: plan_items_def)
    with fi \<open>resp_data resp = Some d\<close> Some show ?thesis
      by (simp add: rebuild_ids rebuild_from rebuild_length)
  qed
qed

theorem plan_items_slice_witness:
  "findIndex isServiceHeader
       [\<lparr>raw_id = ''1'', attr_item_type = Some ''header'', attr_category = None,
          attr_title = Some ''Pre-Service'', attr_description = None, attr_sequence = None,
          attr_position = None, attr_length = None, attr_length_seconds = None,
          attr_length_in_seconds = None\<rparr>,
        \<lparr>raw_id = ''2'', attr_item_type = Some ''Header'', attr_category = None,
          attr_title = Some ''SERVICE (Main)'', attr_description = None,
          attr_sequence = None, attr_position = None, attr_length = None,
          attr_length_seconds = None, attr_length_in_seconds = None\<rparr>,
        \<lparr>raw_id = ''3'', attr_item_type = Some ''song'', attr_category = None,
          attr_title = Some ''Living Hope'', attr_description = None, attr_sequence = None,
          attr_position = None, attr_length = Some 240, attr_length_seconds = None,
          attr_length_in_seconds = None\<rparr>] = Some 1
   \<and> map item_id (plan_items (\<lambda>n. ())
       \<lparr>resp_status = 200, resp_data = Some
       [\<lparr>raw_id = ''1'', attr_item_type = Some ''header'', attr_category = None,
          attr_title = Some ''Pre-Service'', attr_description = None, attr_sequence = None,
          attr_position = None, attr_length = None, attr_length_seconds = None,
          attr_length_in_seconds = None\<rparr>,
        \<lparr>raw_id = ''2'', attr_item_type = Some ''Header'', attr_category = None,
          attr_title = Some ''SERVICE (Main)'', attr_description = None,
          attr_sequence = None, attr_position = None, attr_length = None,
          attr_length_seconds = None, attr_length_in_seconds = None\<rparr>,
        \<lparr>raw_id = ''3'', attr_item_type = Some ''song'', attr_category = None,
          attr_title = Some ''Living Hope'', attr_description = None, attr_sequence = None,
          attr_position = None, attr_length = Some 240, attr_length_seconds = None,
          attr_length_in_seconds = None\<rparr>]\<rparr>) = [''2'', ''3'']"
proof -
  let ?d = "[\<lparr>raw_id = ''1'', attr_item_type = Some ''header'', attr_category = None,
          attr_title = Some ''Pre-Service'', attr_description = None, attr_sequence = None,
          attr_position = None, attr_length = None, attr_length_seconds = None,
          attr_length_in_seconds = None\<rparr>,
        \<lparr>raw_id = ''2'', attr_item_type = Some ''Header'', attr_category = None,
          attr_title = Some ''SERVICE (Main)'', attr_description = None,
          attr_sequence = None, attr_position = None, attr_length = None,
          attr_length_seconds = None, attr_length_in_seconds = None\<rparr>,
        \<lparr>raw_id = ''3'', attr_item_type = Some ''song'', attr_category = None,
          attr_title = Some ''Living Hope'', attr_description = None, attr_sequence = None,
          attr_position = None, attr_length = Some 240, attr_length_seconds = None,
          attr_length_in_seconds = None\<rparr>]"
  have f: "findIndex isServiceHeader ?d = Some 1" by code_simp
  from plan_items_slice [where resp = "\<lparr>resp_status = 200, resp_data = Some ?d\<rparr>"
      and derive = "\<lambda>n. ()"] f
  show ?thesis by simp
qed

section \<open>Properties of the media matching\<close>

text \<open>
  The code's string tests against the wording: \<open>includes\<close> is containment, the tokens of
  \<open>split(/\s+/)\<close> that are not empty are the words, and the slice of
  \<open>Math.ceil(token.length * 0.6)\<close> characters is the 60 % prefix.
\<close>

lemma str_includes_sublist: "str_includes h n \<longleftrightarrow> sublist n h"
  by (induction h) (auto simp: sublist_Cons_right)

lemma split_on_nosep: "d \<notin> set w \<Longrightarrow> split_on d w = [w]"
  by (induction w) (auto split: list.splits)

lemma split_on_append: "d \<notin> set w \<Longrightarrow> split_on d (w @ d # y) = w # split_on d y"
  by (induction w) (auto split: list.splits)

lemma collapse_ws_prefix:
  "\<forall>c\<in>set w. \<not> is_space c \<Longrightarrow> collapse_ws (w @ r) = w @ collapse_ws r"
  by (induction w) auto

lemma space_is_space: "is_space CHR '' ''"
  by (simp add: is_space_def)

lemma nonempty_words_dropWhile:
  "filter (\<lambda>w. w \<noteq> []) (split_ws s) = filter (\<lambda>w. w \<noteq> []) (split_ws (dropWhile is_space s))"
  by (cases s) (auto simp: split_ws_def)

lemma nonempty_words_step:
  assumes "w \<noteq> []" and w: "\<forall>c\<in>set w. \<not> is_space c" and r: "r = [] \<or> is_space (hd r)"
  shows "filter (\<lambda>w. w \<noteq> []) (split_ws (w @ r)) = w # filter (\<lambda>w. w \<noteq> []) (split_ws r)"
proof -
  from w have nosp: "CHR '' '' \<notin> set w" using space_is_space by blast
  have c: "collapse_ws (w @ r) = w @ collapse_ws r" using w by (rule collapse_ws_prefix)
  show ?thesis
  proof (cases r)
    case Nil
    have "collapse_ws w = w" using collapse_ws_prefix [OF w, of "[]"] by simp
    then show ?thesis using Nil assms(1) nosp by (simp add: split_ws_def split_on_nosep)
  next
    case (Cons x xs)
    with r have "is_space x" by simp
    then have "collapse_ws r = CHR '' '' # collapse_ws (dropWhile is_space xs)"
      using Cons by simp
    then show ?thesis using assms(1) nosp by (simp add: split_ws_def c split_on_append)
  qed
qed

lemma words_split: "filter (\<lambda>w. w \<noteq> []) (split_ws s) = spec_words s"
proof (induction s rule: spec_words.induct)
  case (1 s)
  let ?t = "dropWhile is_space s"
  let ?w = "takeWhile (\<lambda>c. \<not> is_space c) ?t"
  let ?r = "dropWhile (\<lambda>c. \<not> is_space c) ?t"
  show ?case
  proof (cases "?t = []")
    case True
    have "spec_words s = []" by (subst spec_words.simps) (simp only: True Let_def if_True refl)
    moreover have "filter (\<lambda>w. w \<noteq> []) (split_ws ?t) = []"
      unfolding True by (simp add: split_ws_def)
    ultimately show ?thesis using nonempty_words_dropWhile [of s] by simp
  next
    case False
    then obtain c cs where t: "?t = c # cs" unfolding neq_Nil_conv by blast
    then have "\<not> is_space c" using hd_dropWhile [of is_space s] by simp
    then have wne: "?w \<noteq> []" unfolding t by simp
    have w: "\<forall>c\<in>set ?w. \<not> is_space c" using set_takeWhileD by fastforce
    have r: "?r = [] \<or> is_space (hd ?r)"
      using hd_dropWhile [of "\<lambda>c. \<not> is_space c" ?t] by blast
    have IH: "filter (\<lambda>w. w \<noteq> []) (split_ws ?r) = spec_words ?r"
      using 1 [OF refl False] .
    have "filter (\<lambda>w. w \<noteq> []) (split_ws (?w @ ?r)) = ?w # spec_words ?r"
      using nonempty_words_step [OF wne w r] IH by simp
    then have "filter (\<lambda>w. w \<noteq> []) (split_ws ?t) = ?w # spec_words ?r"
      by (simp only: takeWhile_dropWhile_id)
    moreover have "spec_words s = ?w # spec_words ?r"
      by (subst spec_words.simps) (simp only: False Let_def if_False)
    ultimately show ?thesis using nonempty_words_dropWhile [of s] by simp
  qed
qed

lemma topic_tokens_spec: "topic_tokens s = filter spec_significant (spec_words s)"
proof -
  have "topic_tokens s = filter spec_significant (filter (\<lambda>w. w \<noteq> []) (split_ws s))"
    unfolding topic_tokens_def spec_significant_def
    by (auto intro!: filter_cong)
  then show ?thesis by (simp only: words_split)
qed

lemma least60: "(LEAST k. 60 * n \<le> 100 * k) = (3 * n + 4) div (5 :: nat)"
  by (rule Least_equality) auto

lemma spec_prefix60_take: "spec_prefix60 t = take ((3 * length t + 4) div 5) t"
  unfolding spec_prefix60_def by (simp only: least60)

lemma partial_of_spec: "5 \<le> length t \<Longrightarrow> partial_of t = spec_prefix60 t"
  by (simp add: partial_of_def spec_prefix60_take max_def)

lemma partial_of_nonempty: "5 \<le> length t \<Longrightarrow> partial_of t \<noteq> []"
  by (auto simp: partial_of_def)

lemma hayCompact_spec: "hayCompact item = spec_collapsed (hayString item)"
  by (simp add: hayCompact_def remove_ws_def spec_collapsed_def)

lemma token_score_spec: "token_score item t = spec_token_points (hayString item) t"
proof (cases "5 \<le> length t")
  case True
  show ?thesis
    unfolding token_score_def spec_token_points_def Let_def str_includes_sublist hayCompact_spec
    using partial_of_spec [OF True] partial_of_nonempty [OF True] True by simp
next
  case False
  then show ?thesis
    unfolding token_score_def spec_token_points_def Let_def str_includes_sublist hayCompact_spec
    by simp
qed

text \<open>
  The integer part of the score is the sum of the wording plus the name bonus, and the
  score of an item is the amended score, for whatever arithmetic the numbers have.
\<close>

lemma foldl_add:
  "foldl (\<lambda>score token. score + f token) (s :: int) ts = s + sum_list (map f ts)"
  by (induction ts arbitrary: s) (auto simp: algebra_simps)

lemma remove_ws_trim_nonempty: "trim s \<noteq> [] \<Longrightarrow> remove_ws (trim s) \<noteq> []"
proof -
  assume "trim s \<noteq> []"
  then have "\<not> blank (trim s)" by (rule trim_not_blank)
  then obtain c where "c \<in> set (trim s)" "\<not> is_space c"
    unfolding blank_def trim_eq_Nil_iff by blast
  then have "c \<in> set (remove_ws (trim s))" by (simp add: remove_ws_def)
  then show ?thesis by auto
qed

lemma keyword_score_spec:
  assumes "topic_canonical topic \<noteq> []"
  shows "keyword_score topic item = spec_keyword_points topic item + name_bonus topic item"
proof -
  from assms have "remove_ws (topic_canonical topic) \<noteq> []"
    unfolding topic_canonical_def by (rule remove_ws_trim_nonempty)
  moreover have "remove_ws s = spec_collapsed s" for s
    by (simp add: remove_ws_def spec_collapsed_def)
  moreover have "token_score item = spec_token_points (hayString item)"
    by (rule ext) (rule token_score_spec)
  ultimately show ?thesis
    by (simp add: keyword_score_def spec_keyword_points_def name_bonus_def Let_def foldl_add
        str_includes_sublist hayCompact_spec topic_tokens_spec)
qed

lemma item_score_spec:
  assumes "topic_canonical topic \<noteq> []"
  shows "item_score ops topic now item = amended_score ops topic now item"
  by (simp add: item_score_def amended_score_def recency_def spec_recency_bonus_def
      spec_ageInDays_def Let_def keyword_score_spec [OF assms] split: option.splits)

lemma best_step_Some:
  assumes "best_of ops topic clock media n p"
  shows "\<exists>q. best_step ops topic (clock n) (Some p) (media ! n) = Some q
           \<and> best_of ops topic clock media (Suc n) q"
proof -
  obtain b bs where p: "p = (b, bs)" by (cases p)
  let ?s = "item_score ops topic (clock n) (media ! n)"
  from assms obtain i where i: "i < n" "b = media ! i" "bs = item_score ops topic (clock i) (media ! i)"
    and le: "\<forall>j<n. item_score ops topic (clock j) (media ! j) \<le> bs
            \<and> (item_score ops topic (clock j) (media ! j) = bs
                 \<longrightarrow> updated_or_0 ops (media ! j) \<le> updated_or_0 ops b)"
    unfolding best_of_def p by auto
  show ?thesis
  proof (cases "?s > bs \<or> (?s = bs \<and> updated_or_0 ops (media ! n) > updated_or_0 ops b)")
    case True
    then have st: "best_step ops topic (clock n) (Some p) (media ! n) = Some (media ! n, ?s)"
      by (simp add: best_step_def p Let_def)
    have "best_of ops topic clock media (Suc n) (media ! n, ?s)"
      unfolding best_of_def fst_conv snd_conv
    proof (intro conjI allI impI)
      show "\<exists>i<Suc n. media ! n = media ! i \<and> ?s = item_score ops topic (clock i) (media ! i)"
        by blast
    next
      fix j assume "j < Suc n"
      then consider "j < n" | "j = n" by linarith
      then show "item_score ops topic (clock j) (media ! j) \<le> ?s"
        using le True by cases force+
    next
      fix j assume j: "j < Suc n" and eq: "item_score ops topic (clock j) (media ! j) = ?s"
      from j consider "j < n" | "j = n" by linarith
      then show "updated_or_0 ops (media ! j) \<le> updated_or_0 ops (media ! n)"
        using le True eq by cases force+
    qed
    with st show ?thesis by blast
  next
    case False
    then have st: "best_step ops topic (clock n) (Some p) (media ! n) = Some p"
      by (simp only: best_step_def p Let_def option.case prod.case if_False)
    have "best_of ops topic clock media (Suc n) (b, bs)"
      unfolding best_of_def fst_conv snd_conv
    proof (intro conjI allI impI)
      show "\<exists>i<Suc n. b = media ! i \<and> bs = item_score ops topic (clock i) (media ! i)"
        using i less_Suc_eq by blast
    next
      fix j assume "j < Suc n"
      then consider "j < n" | "j = n" by linarith
      then show "item_score ops topic (clock j) (media ! j) \<le> bs"
        using le False by cases force+
    next
      fix j assume j: "j < Suc n" and eq: "item_score ops topic (clock j) (media ! j) = bs"
      from j consider "j < n" | "j = n" by linarith
      then show "updated_or_0 ops (media ! j) \<le> updated_or_0 ops b"
        using le False eq by cases force+
    qed
    with st p show ?thesis by blast
  qed
qed

lemma best_loop_Some:
  "best_of ops topic clock media n p \<Longrightarrow> n \<le> length media \<Longrightarrow> drop n media = ys \<Longrightarrow>
     \<exists>q. best_loop ops topic clock n (Some p) ys = Some q
          \<and> best_of ops topic clock media (length media) q"
proof (induction ys arbitrary: n p)
  case Nil
  then have "n = length media" by simp
  with Nil(1) show ?case by simp
next
  case (Cons y ys)
  then have n: "n < length media" by (metis drop_eq_Nil list.distinct(1) not_le)
  with Cons(4) have y: "media ! n = y" and d: "drop (Suc n) media = ys"
    by (metis Cons_nth_drop_Suc list.inject)+
  from n have n': "Suc n \<le> length media" by simp
  from best_step_Some [OF Cons(2)] obtain q where
    q: "best_step ops topic (clock n) (Some p) (media ! n) = Some q"
       "best_of ops topic clock media (Suc n) q" by blast
  from Cons.IH [OF q(2) n' d] q(1) y show ?case by simp
qed

lemma best_loop_None:
  assumes "media \<noteq> []"
  shows "\<exists>q. best_loop ops topic clock 0 None media = Some q
             \<and> best_of ops topic clock media (length media) q"
proof -
  from assms obtain x xs where m: "media = x # xs" by (cases media) auto
  have b: "best_of ops topic clock media (Suc 0) (x, item_score ops topic (clock 0) x)"
    by (simp add: best_of_def m)
  have "Suc 0 \<le> length media" "drop (Suc 0) media = xs" by (simp_all add: m)
  from best_loop_Some [OF b this]
  show ?thesis by (simp add: m best_step_def Let_def)
qed

text \<open>
  C4 (amended). \<open>selectMediaMatch\<close> returns nothing when the topic, the item list or the
  normalized topic is empty. Otherwise, for every arithmetic on the numbers and every
  clock, the score of every item is the amended score: the points of the wording (30, 15,
  and 10, 6 or 2 per significant token), plus 8 when the lowercased name contains the
  lowercased raw topic, to which the recency bonus is added when the timestamp is not zero
  and the age is finite. The item returned is one of the list with its own score, no item
  scores higher, and no item with the same score has a later update timestamp.
\<close>

theorem selectMediaMatch_score:
  fixes ops :: "'f::linorder js_number_ops"
  shows
  "(selectMediaMatch ops topic media clock = None
      \<longleftrightarrow> topic = [] \<or> media = [] \<or> topic_canonical topic = [])
   \<and> (\<forall>b sc. selectMediaMatch ops topic media clock = Some (b, sc) \<longrightarrow>
         (\<exists>i<length media. b = media ! i \<and> sc = amended_score ops topic (clock i) b)
         \<and> (\<forall>j<length media.
               item_score ops topic (clock j) (media ! j)
                 = amended_score ops topic (clock j) (media ! j)
               \<and> amended_score ops topic (clock j) (media ! j) \<le> sc
               \<and> (amended_score ops topic (clock j) (media ! j) = sc
                    \<longrightarrow> updated_or_0 ops (media ! j) \<le> updated_or_0 ops b)))"
proof (cases "topic = [] \<or> media = [] \<or> topic_canonical topic = []")
  case True
  then have "selectMediaMatch ops topic media clock = None"
    by (auto simp: selectMediaMatch_def)
  with True show ?thesis by simp
next
  case False
  then have ne: "media \<noteq> []" and can: "topic_canonical topic \<noteq> []" by simp_all
  from best_loop_None [OF ne, of ops topic clock] obtain q where
    q: "best_loop ops topic clock 0 None media = Some q"
       "best_of ops topic clock media (length media) q" by blast
  from False q(1) have sel: "selectMediaMatch ops topic media clock = Some q"
    by (simp add: selectMediaMatch_def)
  have spec: "item_score ops topic now m = amended_score ops topic now m" for now m
    using can by (rule item_score_spec)
  from q(2) have b1: "\<exists>i<length media. fst q = media ! i
        \<and> snd q = amended_score ops topic (clock i) (fst q)"
    and b3: "\<forall>j<length media. amended_score ops topic (clock j) (media ! j) \<le> snd q
        \<and> (amended_score ops topic (clock j) (media ! j) = snd q
             \<longrightarrow> updated_or_0 ops (media ! j) \<le> updated_or_0 ops (fst q))"
    unfolding best_of_def spec by auto
  have "selectMediaMatch ops topic media clock \<noteq> None" using sel by simp
  moreover have "(\<exists>i<length media. b = media ! i \<and> sc = amended_score ops topic (clock i) b)
         \<and> (\<forall>j<length media.
               item_score ops topic (clock j) (media ! j)
                 = amended_score ops topic (clock j) (media ! j)
               \<and> amended_score ops topic (clock j) (media ! j) \<le> sc
               \<and> (amended_score ops topic (clock j) (media ! j) = sc
                    \<longrightarrow> updated_or_0 ops (media ! j) \<le> updated_or_0 ops b))"
    if "selectMediaMatch ops topic media clock = Some (b, sc)" for b sc
  proof -
    from that sel have qb: "q = (b, sc)" by simp
    from b1 b3 show ?thesis unfolding qb fst_conv snd_conv using spec by blast
  qed
  ultimately show ?thesis using False by blast
qed

theorem selectMediaMatch_score_witness:
  "selectMediaMatch exact_numbers ''Baptism''
     [welcome_media, baptism_old_media, baptism_new_media] sample_clock
     = Some (baptism_new_media, 63)
   \<and> (\<exists>i<3. baptism_new_media = [welcome_media, baptism_old_media, baptism_new_media] ! i
          \<and> amended_score exact_numbers ''Baptism'' (sample_clock i) baptism_new_media = 63)
   \<and> amended_score exact_numbers ''Baptism'' (sample_clock 1) baptism_old_media = 63
   \<and> updated_or_0 exact_numbers baptism_old_media
       \<le> updated_or_0 exact_numbers baptism_new_media"
proof -
  let ?media = "[welcome_media, baptism_old_media, baptism_new_media]"
  have e: "selectMediaMatch exact_numbers ''Baptism'' ?media sample_clock
       = Some (baptism_new_media, 63)"
    by code_simp
  have o: "item_score exact_numbers ''Baptism'' (sample_clock 1) baptism_old_media = 63"
    by code_simp
  note t = selectMediaMatch_score [of exact_numbers "''Baptism''" ?media sample_clock]
  note r = t [THEN conjunct2, rule_format, OF e]
  from r [THEN conjunct1]
  have a: "\<exists>i<3. baptism_new_media = ?media ! i
          \<and> amended_score exact_numbers ''Baptism'' (sample_clock i) baptism_new_media = 63"
    by (auto simp: numeral_3_eq_3)
  have "(1::nat) < length ?media" by simp
  from r [THEN conjunct2, rule_format, OF this] o
  have "amended_score exact_numbers ''Baptism'' (sample_clock 1) baptism_old_media = 63
     \<and> updated_or_0 exact_numbers baptism_old_media
        \<le> updated_or_0 exact_numbers baptism_new_media"
    by simp
  with e a show ?thesis by blast
qed

text \<open>
  C4 as stated fails: for the topic \<open>Baptism\<close> and an item named \<open>Baptism\<close> with the
  keywords \<open>Baptism\<close> and \<open>M1\<close> and no update timestamp, the stated terms add up to
  30 + 15 + 10 = 55, and the score is 63. No number of this run is rounded.
\<close>

theorem selectMediaMatch_name_bonus:
  "keyword_score ''Baptism'' baptism_media = 63
   \<and> spec_keyword_points ''Baptism'' baptism_media = 55
   \<and> selectMediaMatch exact_numbers ''Baptism'' [baptism_media] sample_clock
       = Some (baptism_media, 63)"
proof -
  have k: "keyword_score ''Baptism'' baptism_media = 63" by code_simp
  have "str_includes (toLowerCase (media_name baptism_media)) (toLowerCase ''Baptism'')"
    by code_simp
  then have n: "name_bonus ''Baptism'' baptism_media = 8"
    by (simp only: name_bonus_def str_includes_sublist if_True)
  have "topic_canonical ''Baptism'' \<noteq> []" by code_simp
  from keyword_score_spec [OF this, of baptism_media] k n
  have s: "spec_keyword_points ''Baptism'' baptism_media = 55" by simp
  have "selectMediaMatch exact_numbers ''Baptism'' [baptism_media] sample_clock
       = Some (baptism_media, 63)" by code_simp
  with k s show ?thesis by simp
qed

section \<open>Properties of the orchestrator\<close>

lemma write_notes_tally:
  "write_notes st hp res = (st', None) \<Longrightarrow>
     tally_step (ls_summary st) (ls_summary st') \<and> counted (ls_summary st) (ls_summary st')"
  by (auto simp: write_notes_def Let_def tally_step_def bucket_sum_def bump_updated_def counted_def
        bump_skipped_def bump_writeErrors_def split: outcome.splits if_splits)

lemma write_notes_trace:
  "ls_trace (fst (write_notes st hp res)) = ls_trace st @ [NotesWrite hp]"
  by (auto simp: write_notes_def Let_def split: outcome.splits)

lemma tally_step_refl: "tally_step t t"
  by (simp add: tally_step_def)

lemma record_category_summary: "ls_summary (record_category c u st) = ls_summary st"
  by (simp add: record_category_def)

lemma record_category_trace: "ls_trace (record_category c u st) = ls_trace st"
  by (simp add: record_category_def)

lemma song_rewrite_summary:
  "ls_summary (song_rewrite env st io item hp) = ls_summary st
   \<or> ls_summary (song_rewrite env st io item hp) = bump_writeErrors (ls_summary st)"
  by (auto simp: song_rewrite_def Let_def split: outcome.splits)

lemma write_notes_after:
  assumes "write_notes s hp res = (st', None)"
    and "ls_summary s = t \<or> ls_summary s = bump_writeErrors t"
  shows "tally_step t (ls_summary st') \<and> counted t (ls_summary st')"
  using write_notes_tally [OF assms(1)] assms(2)
  by (auto simp: tally_step_def counted_def bucket_sum_def bump_writeErrors_def)

lemma apply_item_tally:
  assumes "apply_item env st io item c u hp = (st', None)"
  shows "tally_step (ls_summary st) (ls_summary st') \<and> counted (ls_summary st) (ls_summary st')"
proof -
  consider (song) "c = Some ''Song''"
    | (trans) "c \<noteq> Some ''Song''" "c = Some ''Transitions''"
    | (other) "c \<noteq> Some ''Song''" "c \<noteq> Some ''Transitions''" by blast
  then show ?thesis
  proof cases
    case song
    with assms have w: "write_notes (record_category c u (song_rewrite env st io item hp)) hp
        (notes_result io) = (st', None)" by (simp add: apply_item_def)
    show ?thesis
      by (rule write_notes_after [OF w])
         (simp add: record_category_summary song_rewrite_summary)
  next
    case trans
    let ?st1 = "st\<lparr>ls_trace := ls_trace st @
                     [TransitionRewrite hp (env_timer env) (env_stage_layout env)
                        (env_clear_prop env)]\<rparr>"
    from trans assms obtain okay where r: "transition_result io = Returned okay"
      by (cases "transition_result io") (auto simp: apply_item_def Let_def)
    show ?thesis
    proof (cases okay)
      case True
      with trans assms r have w: "write_notes (record_category c u ?st1) hp (notes_result io)
          = (st', None)" by (simp add: apply_item_def Let_def)
      show ?thesis
        by (rule write_notes_after [OF w]) (simp add: record_category_summary)
    next
      case False
      with trans assms r have "st' = ?st1\<lparr>ls_summary := bump_writeErrors (ls_summary ?st1)\<rparr>"
        by (simp add: apply_item_def Let_def)
      then show ?thesis
        by (simp add: tally_step_def counted_def bucket_sum_def bump_writeErrors_def)
    qed
  next
    case other
    with assms have w: "write_notes (record_category c u st) hp (notes_result io) = (st', None)"
      by (simp add: apply_item_def)
    show ?thesis
      by (rule write_notes_after [OF w]) (simp add: record_category_summary)
  qed
qed

lemma bump_tally:
  "tally_step t (bump_skipped t) \<and> counted t (bump_skipped t)"
  "tally_step t (bump_noDesc t) \<and> counted t (bump_noDesc t)"
  "tally_step t (bump_missingPath t) \<and> counted t (bump_missingPath t)"
  by (simp_all add: tally_step_def counted_def bucket_sum_def bump_skipped_def bump_noDesc_def
        bump_missingPath_def)

lemma item_step_tally:
  assumes "item_step ctx st (i, item) = (st', None)"
    and "ctx_env ctx = env" "ctx_idFilter ctx = idFilter p"
    and "ctx_categoryFilter ctx = categoryFilter p"
  shows "tally_step (ls_summary st) (ls_summary st')
     \<and> (if processed p env item then counted (ls_summary st) (ls_summary st')
         else ls_summary st' = ls_summary st)"
  using assms(1) unfolding item_step_def Let_def processed_def assms(2-4) fst_conv snd_conv
  by (auto simp: tally_step_refl bump_tally split: option.splits if_splits
      dest!: apply_item_tally)


lemma run_loop_tally:
  assumes "run_loop ctx st xs = (st', None)"
    and "ctx_env ctx = env" "ctx_idFilter ctx = idFilter p"
    and "ctx_categoryFilter ctx = categoryFilter p"
  shows "bucket_sum (ls_summary st')
           \<le> bucket_sum (ls_summary st) + length (filter (processed p env) (map snd xs))
     \<and> bucket_sum (ls_summary st) + writeErrors (ls_summary st)
           + length (filter (processed p env) (map snd xs))
         \<le> bucket_sum (ls_summary st') + writeErrors (ls_summary st')"
  using assms(1)
proof (induction xs arbitrary: st)
  case Nil
  then show ?case by simp
next
  case (Cons ix xs)
  obtain i item where ix: "ix = (i, item)" by (cases ix)
  from Cons.prems obtain s1 where s1: "item_step ctx st ix = (s1, None)"
    and rest: "run_loop ctx s1 xs = (st', None)"
    by (auto split: prod.splits option.splits)
  note h = item_step_tally [OF s1 [unfolded ix] assms(2-4)]
  note ih = Cons.IH [OF rest]
  show ?case
  proof (cases "processed p env item")
    case True
    with h ih show ?thesis
      by (simp add: ix tally_step_def counted_def)
  next
    case False
    with h ih show ?thesis
      by (simp add: ix tally_step_def)
  qed
qed

lemma empty_tally_sums: "bucket_sum empty_tally = 0" "writeErrors empty_tally = 0"
  by (simp_all add: bucket_sum_def empty_tally_def)

lemma item_step_tally_step:
  "item_step ctx st ix = (st', None) \<Longrightarrow> tally_step (ls_summary st) (ls_summary st')"
  unfolding item_step_def Let_def
  by (auto simp: tally_step_refl bump_tally split: option.splits if_splits
      dest!: apply_item_tally)

text \<open>
  C1 (amended). In every run that returns a summary, each item adds at most one to the
  four buckets \<open>updated\<close>, \<open>skipped\<close>, \<open>noDesc\<close>, \<open>missingPath\<close> together, so their sum is
  at most the number of items the loop processed; an item whose transition rewrite fails is
  counted in \<open>writeErrors\<close> only, so the number of processed items is bounded by the sum
  of the four buckets only after \<open>writeErrors\<close> is added.
\<close>

theorem run_summary_conservation:
  "(\<forall>d tr nxt plan.
      runPresentationSync p env = (Inr d, tr) \<and> env_fetch env = Returned nxt
      \<and> fetch_plan nxt = Some plan \<longrightarrow>
        bucket_sum (run_summary d) \<le> length (filter (processed p env) (sp_items plan))
        \<and> length (filter (processed p env) (sp_items plan))
            \<le> bucket_sum (run_summary d) + writeErrors (run_summary d))
   \<and> (\<forall>ctx st ix st'.
        item_step (ctx :: ('p, 'f) loop_ctx) st ix = (st', None) \<longrightarrow>
          tally_step (ls_summary st) (ls_summary st'))"
proof (intro conjI allI impI)
  fix d tr nxt plan
  assume a: "runPresentationSync p env = (Inr d, tr) \<and> env_fetch env = Returned nxt
      \<and> fetch_plan nxt = Some plan"
  then obtain entries where ent: "env_index env = Indexed entries"
    by (cases "env_index env")
       (auto simp: runPresentationSync_def split: if_splits option.splits)
  from a ent have lp: "snd (mutation_loop p env plan entries) = None"
    and sm: "run_summary d = ls_summary (fst (mutation_loop p env plan entries))"
    by (auto simp: runPresentationSync_def Let_def split: if_splits option.splits)
  let ?ctx = "\<lparr>ctx_env = env, ctx_entries = entries, ctx_idFilter = idFilter p,
        ctx_categoryFilter = categoryFilter p\<rparr>"
  let ?st0 = "\<lparr>ls_summary = empty_tally, ls_categories = [], ls_missing = [],
        ls_trace = (if shouldReopen p env then [Quit] else [])\<rparr>"
  let ?xs = "zip [0 ..< length (sp_items plan)] (sp_items plan)"
  have "run_loop ?ctx ?st0 ?xs = (fst (mutation_loop p env plan entries), None)"
    using lp by (simp add: mutation_loop_def prod_eq_iff)
  from run_loop_tally [OF this, of env p] have
    "bucket_sum (run_summary d) \<le> length (filter (processed p env) (map snd ?xs))
     \<and> length (filter (processed p env) (map snd ?xs))
         \<le> bucket_sum (run_summary d) + writeErrors (run_summary d)"
    by (simp add: sm empty_tally_sums)
  moreover have "map snd ?xs = sp_items plan" by (simp add: map_snd_zip)
  ultimately show "bucket_sum (run_summary d)
      \<le> length (filter (processed p env) (sp_items plan))"
    and "length (filter (processed p env) (sp_items plan))
            \<le> bucket_sum (run_summary d) + writeErrors (run_summary d)" by simp_all
next
  fix ctx :: "('p, 'f) loop_ctx" and st ix st'
  assume "item_step ctx st ix = (st', None)"
  then show "tally_step (ls_summary st) (ls_summary st')" by (rule item_step_tally_step)
qed


theorem run_summary_conservation_witness:
  "runPresentationSync sample_payload
     (sample_env [header_item, welcome_item, song_item, unmatched_item]
        (\<lambda>i. if i = 2 then tools_report_failure else all_ok) sample_index)
   = (Inr \<lparr>planTitle = ''Sunday'',
           run_summary = \<lparr>updated = 1, skipped = 2, noDesc = 0, missingPath = 0,
                           writeErrors = 2\<rparr>,
           run_missing = [], run_reopen = None,
           run_categories = [(''U1'', ''Transitions''), (''U2'', ''Song'')]\<rparr>,
      [Quit, TransitionRewrite ''/lib/Welcome.pro'' None None None,
       NotesWrite ''/lib/Welcome.pro'', SongRewrite ''/lib/Living Hope.pro'',
       NotesWrite ''/lib/Living Hope.pro'', Launch])
   \<and> length (filter (processed sample_payload
        (sample_env [header_item, welcome_item, song_item, unmatched_item]
           (\<lambda>i. if i = 2 then tools_report_failure else all_ok) sample_index))
        [header_item, welcome_item, song_item, unmatched_item]) = 3"
proof -
  let ?items = "[header_item, welcome_item, song_item, unmatched_item]"
  let ?env = "sample_env ?items (\<lambda>i. if i = 2 then tools_report_failure else all_ok)
      sample_index"
  let ?d = "\<lparr>planTitle = ''Sunday'',
           run_summary = \<lparr>updated = 1, skipped = 2, noDesc = 0, missingPath = 0,
                           writeErrors = 2\<rparr>,
           run_missing = [], run_reopen = None,
           run_categories = [(''U1'', ''Transitions''), (''U2'', ''Song'')]\<rparr>"
  have e: "runPresentationSync sample_payload ?env
     = (Inr ?d,
      [Quit, TransitionRewrite ''/lib/Welcome.pro'' None None None,
       NotesWrite ''/lib/Welcome.pro'', SongRewrite ''/lib/Living Hope.pro'',
       NotesWrite ''/lib/Living Hope.pro'', Launch])"
    by code_simp
  have f: "env_fetch ?env = Returned \<lparr>fetch_ok = True,
       fetch_plan = Some \<lparr>sp_title = ''Sunday'', sp_items = ?items\<rparr>, fetch_error = None\<rparr>"
    by (simp add: sample_env_def)
  have s: "bucket_sum (run_summary ?d) = 3" "writeErrors (run_summary ?d) = 2"
    by (simp_all add: bucket_sum_def)
  from run_summary_conservation [where p = sample_payload and env = ?env,
      THEN conjunct1, rule_format, OF conjI [OF e conjI [OF f]]]
  have "bucket_sum (run_summary ?d) \<le> length (filter (processed sample_payload ?env) ?items)
        \<and> length (filter (processed sample_payload ?env) ?items)
            \<le> bucket_sum (run_summary ?d) + writeErrors (run_summary ?d)"
    by simp
  moreover have "length (filter (processed sample_payload ?env) ?items) \<le> 3"
    by (simp add: processed_def header_item_def)
  ultimately have "length (filter (processed sample_payload ?env) ?items) = 3"
    unfolding s by linarith
  with e show ?thesis by blast
qed

text \<open>
  C1 as stated fails: a plan whose only item is a matched transition with a description,
  for which the transition rewrite returns a failure, is processed to an outcome, and the
  four buckets stay at 0.
\<close>

theorem run_summary_transition_failure:
  "fst (runPresentationSync sample_payload
     (sample_env [welcome_item] (\<lambda>i. tools_report_failure) sample_index))
   = Inr \<lparr>planTitle = ''Sunday'',
          run_summary = \<lparr>updated = 0, skipped = 0, noDesc = 0, missingPath = 0,
                          writeErrors = 1\<rparr>,
          run_missing = [], run_reopen = None, run_categories = []\<rparr>
   \<and> length (filter (processed sample_payload
        (sample_env [welcome_item] (\<lambda>i. tools_report_failure) sample_index))
        [welcome_item]) = 1"
  by code_simp


lemma write_notes_Some:
  "write_notes st hp res = (st', Some e) \<Longrightarrow> res = Threw e"
  by (auto simp: write_notes_def Let_def split: outcome.splits if_splits)

lemma apply_item_Some:
  "apply_item env st io item c u hp = (st', Some e)
     \<Longrightarrow> transition_result io = Threw e \<or> notes_result io = Threw e"
  by (auto simp: apply_item_def Let_def split: if_splits outcome.splits
      dest: write_notes_Some)

lemma item_step_Some:
  "item_step ctx st (i, item) = (st', Some e)
     \<Longrightarrow> transition_result (env_io (ctx_env ctx) i) = Threw e
         \<or> notes_result (env_io (ctx_env ctx) i) = Threw e"
  unfolding item_step_def Let_def fst_conv snd_conv
  by (auto split: if_splits option.splits dest: apply_item_Some)

lemma run_loop_Some:
  "run_loop ctx st xs = (st', Some e)
     \<Longrightarrow> \<exists>i\<in>fst ` set xs. transition_result (env_io (ctx_env ctx) i) = Threw e
         \<or> notes_result (env_io (ctx_env ctx) i) = Threw e"
proof (induction xs arbitrary: st)
  case Nil
  then show ?case by simp
next
  case (Cons ix xs)
  obtain i item where ix: "ix = (i, item)" by (cases ix)
  obtain s1 r where s1: "item_step ctx st ix = (s1, r)" by (cases "item_step ctx st ix")
  show ?case
  proof (cases r)
    case None
    with Cons.prems s1 have "run_loop ctx s1 xs = (st', Some e)" by simp
    from Cons.IH [OF this] show ?thesis by auto
  next
    case (Some e')
    with Cons.prems s1 have "e' = e" by simp
    with s1 Some ix have "item_step ctx st (i, item) = (s1, Some e)" by simp
    from item_step_Some [OF this] ix show ?thesis by auto
  qed
qed

lemma mutation_loop_Some:
  assumes "snd (mutation_loop p env plan entries) = Some e"
  shows "\<exists>i<length (sp_items plan). transition_result (env_io env i) = Threw e
         \<or> notes_result (env_io env i) = Threw e"
proof -
  let ?xs = "zip [0 ..< length (sp_items plan)] (sp_items plan)"
  from assms obtain st' where "run_loop
       \<lparr>ctx_env = env, ctx_entries = entries, ctx_idFilter = idFilter p,
        ctx_categoryFilter = categoryFilter p\<rparr>
       \<lparr>ls_summary = empty_tally, ls_categories = [], ls_missing = [],
        ls_trace = (if shouldReopen p env then [Quit] else [])\<rparr> ?xs = (st', Some e)"
    by (cases "mutation_loop p env plan entries") (simp add: mutation_loop_def)
  from run_loop_Some [OF this] obtain i where
    i: "i \<in> fst ` set ?xs" and
    t: "transition_result (env_io env i) = Threw e \<or> notes_result (env_io env i) = Threw e"
    by auto
  from i have "i \<in> set [0 ..< length (sp_items plan)]"
    by (auto dest: set_zip_leftD)
  then have "i < length (sp_items plan)" by simp
  with t show ?thesis by blast
qed

lemma run_error_cases:
  "is_error (runPresentationSync p env) \<longleftrightarrow>
     rp_host p = [] \<or> rp_port p = 0 \<or> rp_libraryRoot p = []
     \<or> plan_fetch_failed env \<or> index_failed env \<or> quit_failed p env
     \<or> (\<exists>next plan entries.
           env_fetch env = Returned next \<and> fetch_plan next = Some plan
           \<and> env_index env = Indexed entries
           \<and> snd (mutation_loop p env plan entries) \<noteq> None)"
  by (auto simp: is_error_def runPresentationSync_def plan_fetch_failed_def
        index_failed_def quit_failed_def Let_def
      split: outcome.splits option.splits index_result.splits if_splits)

lemma run_summary_of_loop:
  assumes "fst (runPresentationSync p env) = Inr d"
  shows "\<exists>next plan entries.
           env_fetch env = Returned next \<and> fetch_plan next = Some plan
           \<and> env_index env = Indexed entries
           \<and> planTitle d = sp_title plan
           \<and> run_summary d = ls_summary (fst (mutation_loop p env plan entries))"
  using assms
  by (auto simp: runPresentationSync_def Let_def
      split: outcome.splits option.splits index_result.splits if_splits)

text \<open>
  C2 (amended). In a run in which neither the transition rewrite nor the notes write
  rejects for an item of the plan, the result is an error result exactly when the host,
  the port or the library path is missing, the plan fetch fails, the library index fails,
  or the host cannot be shut down before writing. Every other failure is local: a song
  rewrite, transition rewrite or notes write that returns a failure, a song rewrite that
  rejects, and an absent timer, stage layout, prop or media playlist leave the run to
  return the summary that the mutation loop tallied.
\<close>

theorem run_abort_conditions:
  assumes "\<forall>next plan i e.
             env_fetch env = Returned next \<and> fetch_plan next = Some plan
             \<and> i < length (sp_items plan) \<longrightarrow>
               transition_result (env_io env i) \<noteq> Threw e
               \<and> notes_result (env_io env i) \<noteq> Threw e"
  shows "(is_error (runPresentationSync p env) \<longleftrightarrow>
            rp_host p = [] \<or> rp_port p = 0 \<or> rp_libraryRoot p = []
            \<or> plan_fetch_failed env \<or> index_failed env \<or> quit_failed p env)
         \<and> (\<not> is_error (runPresentationSync p env) \<longrightarrow>
              (\<exists>next plan entries d.
                  env_fetch env = Returned next \<and> fetch_plan next = Some plan
                  \<and> env_index env = Indexed entries
                  \<and> fst (runPresentationSync p env) = Inr d
                  \<and> planTitle d = sp_title plan
                  \<and> run_summary d = ls_summary (fst (mutation_loop p env plan entries))))"
proof -
  have loop: "snd (mutation_loop p env plan entries) = None"
    if "env_fetch env = Returned nxt" "fetch_plan nxt = Some plan" for nxt :: fetch_result and plan entries
  proof (rule ccontr)
    assume "snd (mutation_loop p env plan entries) \<noteq> None"
    then obtain e where "snd (mutation_loop p env plan entries) = Some e" by auto
    from mutation_loop_Some [OF this] obtain i where
      "i < length (sp_items plan)"
      "transition_result (env_io env i) = Threw e \<or> notes_result (env_io env i) = Threw e"
      by blast
    with assms that show False by blast
  qed
  have iff: "is_error (runPresentationSync p env) \<longleftrightarrow>
            rp_host p = [] \<or> rp_port p = 0 \<or> rp_libraryRoot p = []
            \<or> plan_fetch_failed env \<or> index_failed env \<or> quit_failed p env"
  proof -
    have "\<not> (\<exists>next plan entries.
           env_fetch env = Returned next \<and> fetch_plan next = Some plan
           \<and> env_index env = Indexed entries
           \<and> snd (mutation_loop p env plan entries) \<noteq> None)"
    proof
      assume "\<exists>next plan entries.
           env_fetch env = Returned next \<and> fetch_plan next = Some plan
           \<and> env_index env = Indexed entries
           \<and> snd (mutation_loop p env plan entries) \<noteq> None"
      then obtain nxt plan entries where
        a: "env_fetch env = Returned nxt" "fetch_plan nxt = Some plan"
        and b: "snd (mutation_loop p env plan entries) \<noteq> None" by blast
      from loop [OF a, of entries] b show False by simp
    qed
    then show ?thesis by (simp only: run_error_cases simp_thms)
  qed
  have "\<exists>next plan entries d.
                  env_fetch env = Returned next \<and> fetch_plan next = Some plan
                  \<and> env_index env = Indexed entries
                  \<and> fst (runPresentationSync p env) = Inr d
                  \<and> planTitle d = sp_title plan
                  \<and> run_summary d = ls_summary (fst (mutation_loop p env plan entries))"
    if "\<not> is_error (runPresentationSync p env)"
  proof -
    from that obtain d where d: "fst (runPresentationSync p env) = Inr d"
      by (auto simp: is_error_def split: sum.splits)
    from run_summary_of_loop [OF d] d show ?thesis by blast
  qed
  with iff show ?thesis by blast
qed

theorem run_abort_conditions_witness:
  "fst (runPresentationSync sample_payload
     (sample_env [header_item, welcome_item, song_item, unmatched_item]
        (\<lambda>i. song_spawn_fails) sample_index))
   = Inr \<lparr>planTitle = ''Sunday'',
          run_summary = \<lparr>updated = 0, skipped = 2, noDesc = 0, missingPath = 0,
                          writeErrors = 3\<rparr>,
          run_missing = [], run_reopen = None, run_categories = [(''U2'', ''Song'')]\<rparr>
   \<and> \<not> plan_fetch_failed
       (sample_env [header_item, welcome_item, song_item, unmatched_item]
          (\<lambda>i. song_spawn_fails) sample_index)
   \<and> \<not> index_failed
       (sample_env [header_item, welcome_item, song_item, unmatched_item]
          (\<lambda>i. song_spawn_fails) sample_index)
   \<and> \<not> quit_failed sample_payload
       (sample_env [header_item, welcome_item, song_item, unmatched_item]
          (\<lambda>i. song_spawn_fails) sample_index)"
proof -
  let ?env = "sample_env [header_item, welcome_item, song_item, unmatched_item]
        (\<lambda>i. song_spawn_fails) sample_index"
  have e: "fst (runPresentationSync sample_payload ?env)
   = Inr \<lparr>planTitle = ''Sunday'',
          run_summary = \<lparr>updated = 0, skipped = 2, noDesc = 0, missingPath = 0,
                          writeErrors = 3\<rparr>,
          run_missing = [], run_reopen = None, run_categories = [(''U2'', ''Song'')]\<rparr>"
    by code_simp
  then have n: "\<not> is_error (runPresentationSync sample_payload ?env)"
    by (simp add: is_error_def)
  have h: "\<forall>next plan i e.
             env_fetch ?env = Returned next \<and> fetch_plan next = Some plan
             \<and> i < length (sp_items plan) \<longrightarrow>
               transition_result (env_io ?env i) \<noteq> Threw e
               \<and> notes_result (env_io ?env i) \<noteq> Threw e"
    by (simp add: sample_env_def song_spawn_fails_def)
  from run_abort_conditions [of ?env sample_payload, OF h, THEN conjunct1] n e
  show ?thesis by blast
qed

text \<open>
  C2 as stated fails: with the plan fetched and the host not yet touched, a failure of the
  library index ends the run with an error result.
\<close>

theorem run_aborts_on_index_failure:
  "fst (runPresentationSync sample_payload
     (sample_env [header_item, welcome_item] (\<lambda>i. all_ok) (IndexFailed ''exit 1'')))
   = Inl ''Library index failed''
   \<and> \<not> plan_fetch_failed
       (sample_env [header_item, welcome_item] (\<lambda>i. all_ok) (IndexFailed ''exit 1''))
   \<and> \<not> quit_failed sample_payload
       (sample_env [header_item, welcome_item] (\<lambda>i. all_ok) (IndexFailed ''exit 1''))"
  by code_simp

text \<open>
  The statement above leaves open the runs in which the transition rewrite or the notes
  write rejects. The song rewrite is wrapped in a \<open>try\<close> of its own; these two calls are
  not, and their rejection leaves the loop: here the transition rewrite of the first item
  rejects, and the run ends with an error result.
\<close>

lemma transition_rejection_leaves_loop:
  "fst (runPresentationSync sample_payload
     (sample_env [header_item, welcome_item, song_item] (\<lambda>i. spawn_fails) sample_index))
   = Inl ''spawn python3 ENOENT''"
  by code_simp

lemma song_rewrite_trace:
  "\<exists>evs. ls_trace (song_rewrite env st io item hp) = ls_trace st @ evs
         \<and> list_all rewrite_event evs"
  by (auto simp: song_rewrite_def Let_def rewrite_event_def split: outcome.splits)

lemma apply_item_trace:
  "\<exists>evs. ls_trace (fst (apply_item env st io item c u hp)) = ls_trace st @ evs
         \<and> list_all rewrite_event evs"
proof -
  obtain evs where s: "ls_trace (song_rewrite env st io item hp) = ls_trace st @ evs"
    "list_all rewrite_event evs" using song_rewrite_trace by blast
  have n: "rewrite_event (NotesWrite hp)"
    "rewrite_event (TransitionRewrite hp a b c')" for a b c'
    by (simp_all add: rewrite_event_def)
  show ?thesis
    unfolding apply_item_def Let_def
    using s n
    by (auto simp: write_notes_trace record_category_trace split: outcome.splits)
qed

lemma item_step_trace:
  "\<exists>evs. ls_trace (fst (item_step ctx st ix)) = ls_trace st @ evs
         \<and> list_all rewrite_event evs"
  unfolding item_step_def Let_def
  using apply_item_trace
  by (auto split: option.splits)

lemma run_loop_trace:
  "\<exists>evs. ls_trace (fst (run_loop ctx st xs)) = ls_trace st @ evs
         \<and> list_all rewrite_event evs"
proof (induction xs arbitrary: st)
  case Nil
  show ?case by simp
next
  case (Cons ix xs)
  obtain s1 r where s1: "item_step ctx st ix = (s1, r)" by (cases "item_step ctx st ix")
  from item_step_trace [of ctx st ix] s1 obtain e1 where
    e1: "ls_trace s1 = ls_trace st @ e1" "list_all rewrite_event e1" by auto
  show ?case
  proof (cases r)
    case None
    from Cons.IH [of s1] obtain e2 where
      e2: "ls_trace (fst (run_loop ctx s1 xs)) = ls_trace s1 @ e2" "list_all rewrite_event e2"
      by blast
    with e1 s1 None have "ls_trace (fst (run_loop ctx st (ix # xs))) = ls_trace st @ (e1 @ e2)"
      "list_all rewrite_event (e1 @ e2)" by simp_all
    then show ?thesis by blast
  next
    case (Some e)
    with s1 e1 show ?thesis by auto
  qed
qed

text \<open>
  C5. In every run that reopens the host and reaches the mutation loop, the trace is the
  shutdown, the calls of the rewrite tool made by the loop, and the relaunch as the last
  event, whether the loop completed or was left by an exception (in which case the run
  returns that exception's message).
\<close>

theorem host_relaunched_after_loop:
  assumes "shouldReopen p env" and "reaches_loop p env plan entries"
  shows "snd (runPresentationSync p env)
           = ls_trace (fst (mutation_loop p env plan entries)) @ [Launch]
     \<and> (\<exists>evs. ls_trace (fst (mutation_loop p env plan entries)) = Quit # evs
              \<and> list_all rewrite_event evs)
     \<and> (\<forall>e. snd (mutation_loop p env plan entries) = Some e \<longrightarrow>
            fst (runPresentationSync p env) = Inl (error_message e))"
proof -
  from assms have tr: "snd (runPresentationSync p env)
           = ls_trace (fst (mutation_loop p env plan entries)) @ [Launch]"
    and er: "\<forall>e. snd (mutation_loop p env plan entries) = Some e \<longrightarrow>
            fst (runPresentationSync p env) = Inl (error_message e)"
    by (auto simp: reaches_loop_def runPresentationSync_def Let_def split: option.splits)
  from run_loop_trace [of "\<lparr>ctx_env = env, ctx_entries = entries, ctx_idFilter = idFilter p,
        ctx_categoryFilter = categoryFilter p\<rparr>"
      "\<lparr>ls_summary = empty_tally, ls_categories = [], ls_missing = [],
        ls_trace = (if shouldReopen p env then [Quit] else [])\<rparr>"
      "zip [0 ..< length (sp_items plan)] (sp_items plan)"] assms(1)
  have "\<exists>evs. ls_trace (fst (mutation_loop p env plan entries)) = Quit # evs
              \<and> list_all rewrite_event evs"
    by (simp add: mutation_loop_def)
  with tr er show ?thesis by blast
qed

theorem host_relaunched_after_loop_witness:
  "runPresentationSync sample_payload
     (sample_env [header_item, song_item, welcome_item] (\<lambda>i. spawn_fails) sample_index)
   = (Inl ''spawn python3 ENOENT'',
      [Quit, SongRewrite ''/lib/Living Hope.pro'', NotesWrite ''/lib/Living Hope.pro'',
       Launch])
   \<and> ls_trace (fst (mutation_loop sample_payload
        (sample_env [header_item, song_item, welcome_item] (\<lambda>i. spawn_fails) sample_index)
        \<lparr>sp_title = ''Sunday'', sp_items = [header_item, song_item, welcome_item]\<rparr>
        [(''U1'', \<lparr>entry_path = ''/lib/Welcome.pro'', entry_title = Some ''Welcome''\<rparr>),
         (''U2'', \<lparr>entry_path = ''/lib/Living Hope.pro'', entry_title = None\<rparr>)]))
     @ [Launch]
     = [Quit, SongRewrite ''/lib/Living Hope.pro'', NotesWrite ''/lib/Living Hope.pro'',
        Launch]"
proof -
  let ?items = "[header_item, song_item, welcome_item]"
  let ?env = "sample_env ?items (\<lambda>i. spawn_fails) sample_index"
  let ?plan = "\<lparr>sp_title = ''Sunday'', sp_items = ?items\<rparr>"
  let ?entries = "[(''U1'', \<lparr>entry_path = ''/lib/Welcome.pro'', entry_title = Some ''Welcome''\<rparr>),
         (''U2'', \<lparr>entry_path = ''/lib/Living Hope.pro'', entry_title = None\<rparr>)]"
  have r: "shouldReopen sample_payload ?env"
    by (simp add: shouldReopen_def sample_payload_def sample_env_def)
  have l: "reaches_loop sample_payload ?env ?plan ?entries"
    by (simp add: reaches_loop_def sample_payload_def sample_env_def sample_index_def)
  have e: "runPresentationSync sample_payload ?env
   = (Inl ''spawn python3 ENOENT'',
      [Quit, SongRewrite ''/lib/Living Hope.pro'', NotesWrite ''/lib/Living Hope.pro'',
       Launch])"
    by code_simp
  from host_relaunched_after_loop [OF r l] e show ?thesis by simp
qed

end
